theory Spec2Isabelle
  imports Complex_Main "HOL-Library.AList" "HOL-Library.Sublist"
begin

section \<open>The pyinseq driver script (pyinseq.py)\<close>

text \<open>
  The script is an orchestration: it reads the command line, then calls the
  collaborators imported from \<^verbatim>\<open>demultiplex\<close>, \<^verbatim>\<open>gbkconvert\<close>, \<^verbatim>\<open>mapReads\<close>,
  \<^verbatim>\<open>processMapping\<close> and \<^verbatim>\<open>utils\<close> in a fixed order. Those modules are not part of
  the file, so every collaborator is a parameter of the model (a field of the record
  \<open>env\<close>): an arbitrary function on the state of the world that either returns or
  raises. The script itself (\<^verbatim>\<open>parseArgs\<close>, the class \<^verbatim>\<open>cd\<close> and \<^verbatim>\<open>main\<close>) is
  translated statement by statement.
\<close>

subsection \<open>Exceptions and values\<close>

text \<open>
  Every way the script can stop early is a value: \<open>SystemExit\<close> is argparse refusing the
  command line, \<open>ValueError\<close> is \<^verbatim>\<open>float()\<close> on a string that is no number,
  \<open>IndexError\<close> is \<^verbatim>\<open>reads[-1]\<close> on the empty string, \<open>KeyError\<close> a missing dictionary
  key, \<open>OSError\<close> a failing call of \<^verbatim>\<open>os\<close> or \<^verbatim>\<open>shutil\<close>, and \<open>Failure\<close> stands for
  whatever a collaborator raises.
\<close>

datatype exn =
    SystemExit
  | ValueError
  | KeyError string
  | IndexError
  | OSError string
  | Failure string

text \<open>An argparse value that is either a Python float (the default of \<^verbatim>\<open>-d\<close>) or the
  string typed on the command line.\<close>

datatype pyval = PyFloat real | PyStr string

text \<open>A sample is a dictionary with string keys (\<^verbatim>\<open>'name'\<close>, \<^verbatim>\<open>'barcode'\<close>, later
  \<^verbatim>\<open>'demultiplexedPath'\<close> and \<^verbatim>\<open>'trimmedPath'\<close>); the registry \<^verbatim>\<open>samplesDict\<close> is an
  ordered dictionary from sample name to sample. Both are association lists in
  insertion order.\<close>

type_synonym sample = "(string \<times> string) list"
type_synonym registry = "(string \<times> sample) list"

definition dict_get :: "('k \<times> 'v) list \<Rightarrow> 'k \<Rightarrow> ('k \<Rightarrow> exn) \<Rightarrow> exn + 'v" where
  "dict_get d k err = (case map_of d k of None \<Rightarrow> Inl (err k) | Some v \<Rightarrow> Inr v)"

subsection \<open>The command line: \<^verbatim>\<open>parseArgs\<close>\<close>

text \<open>
  argparse's own lexing of \<^verbatim>\<open>sys.argv\<close> is library code; the model starts from the
  option occurrences it recognises, in the order given. The six \<^verbatim>\<open>add_argument\<close>
  declarations become: four required options, \<^verbatim>\<open>-d\<close> with the float default \<open>1.0\<close>,
  and the \<^verbatim>\<open>store_true\<close> flag \<^verbatim>\<open>--nobarcodes\<close> with default \<open>False\<close>. A repeated option
  keeps its last value; a missing required option ends the process.
\<close>

datatype cli_opt =
    Opt_input string
  | Opt_samples string
  | Opt_experiment string
  | Opt_genome string
  | Opt_disruption string
  | Opt_nobarcodes

record namespace =
  a_input :: string
  a_samples :: string
  a_experiment :: string
  a_genome :: string
  a_disruption :: pyval
  a_nobarcodes :: bool

fun get_input :: "cli_opt \<Rightarrow> string option" where
  "get_input (Opt_input v) = Some v"
| "get_input _ = None"

fun get_samples :: "cli_opt \<Rightarrow> string option" where
  "get_samples (Opt_samples v) = Some v"
| "get_samples _ = None"

fun get_experiment :: "cli_opt \<Rightarrow> string option" where
  "get_experiment (Opt_experiment v) = Some v"
| "get_experiment _ = None"

fun get_genome :: "cli_opt \<Rightarrow> string option" where
  "get_genome (Opt_genome v) = Some v"
| "get_genome _ = None"

fun get_disruption :: "cli_opt \<Rightarrow> string option" where
  "get_disruption (Opt_disruption v) = Some v"
| "get_disruption _ = None"

definition last_given :: "(cli_opt \<Rightarrow> 'a option) \<Rightarrow> cli_opt list \<Rightarrow> 'a option" where
  "last_given f opts =
     (case List.map_filter f opts of [] \<Rightarrow> None | v # vs \<Rightarrow> Some (last (v # vs)))"

definition parseArgs :: "cli_opt list \<Rightarrow> exn + namespace" where
  "parseArgs opts =
     (case (last_given get_input opts, last_given get_samples opts,
            last_given get_experiment opts, last_given get_genome opts) of
        (Some i, Some s, Some e, Some g) \<Rightarrow>
          Inr \<lparr> a_input = i, a_samples = s, a_experiment = e, a_genome = g,
                a_disruption = (case last_given get_disruption opts of
                                  None \<Rightarrow> PyFloat 1
                                | Some d \<Rightarrow> PyStr d),
                a_nobarcodes = (Opt_nobarcodes \<in> set opts) \<rparr>
      | _ \<Rightarrow> Inl SystemExit)"

subsection \<open>The world: working directory and files\<close>

text \<open>
  What the script touches of the operating system: the process working directory,
  the directories that can be entered and the files that exist, the last two named by
  absolute path. The record is extensible, so a collaborator may depend on and change
  more than these three fields.
\<close>

record world =
  cwd :: string
  dirs :: "string set"
  files :: "string set"

definition is_abs :: "string \<Rightarrow> bool" where
  "is_abs p = (case p of [] \<Rightarrow> False | c # _ \<Rightarrow> c = CHR ''/'')"

definition abspath :: "string \<Rightarrow> string \<Rightarrow> string" where
  "abspath d p = (if is_abs p then p else d @ ''/'' @ p)"

text \<open>\<^verbatim>\<open>os.getcwd\<close>, \<^verbatim>\<open>os.chdir\<close>, \<^verbatim>\<open>os.remove\<close> and \<^verbatim>\<open>shutil.copyfile\<close>: a relative path
  is taken from the working directory; the call raises when its target is not there.\<close>

definition os_getcwd :: "'x world_scheme \<Rightarrow> string" where
  "os_getcwd w = cwd w"

definition os_chdir :: "string \<Rightarrow> 'x world_scheme \<Rightarrow> (exn + unit) \<times> 'x world_scheme" where
  "os_chdir p w =
     (if abspath (cwd w) p \<in> dirs w then (Inr (), w\<lparr>cwd := abspath (cwd w) p\<rparr>)
      else (Inl (OSError p), w))"

definition os_remove :: "string \<Rightarrow> 'x world_scheme \<Rightarrow> (exn + unit) \<times> 'x world_scheme" where
  "os_remove p w =
     (if abspath (cwd w) p \<in> files w
      then (Inr (), w\<lparr>files := files w - {abspath (cwd w) p}\<rparr>)
      else (Inl (OSError p), w))"

definition copyfile :: "string \<Rightarrow> string \<Rightarrow> 'x world_scheme \<Rightarrow> (exn + unit) \<times> 'x world_scheme" where
  "copyfile src dst w =
     (if abspath (cwd w) src \<in> files w
      then (Inr (), w\<lparr>files := insert (abspath (cwd w) dst) (files w)\<rparr>)
      else (Inl (OSError src), w))"

subsection \<open>Calls, and the order they are made in\<close>

text \<open>
  A run is observed through the calls it makes. Each call of a collaborator, of
  \<^verbatim>\<open>copyfile\<close> and of \<^verbatim>\<open>os.remove\<close> is recorded with its arguments as the script
  computed them, and with the exception it raised, if any. (\<^verbatim>\<open>buildGeneTable\<close> is
  recorded with the keys of \<^verbatim>\<open>geneMappings\<close>.)
\<close>

datatype call =
    Sample_prep string bool
  | CreateExperimentDirectories string
  | Copyfile string string
  | Demultiplex_fastq string registry string
  | Gbk2fna string string string
  | Gbk2ftt string string string
  | BowtieBuild string
  | Trim_fastq string string string nat
  | BowtieMap string string string
  | Os_remove string
  | MapSites string
  | MapGenes string string real string
  | BuildGeneTable string registry "string list" string

type_synonym entry = "call \<times> exn option"

text \<open>An action runs in a world and gives a result or an exception, the world it leaves
  behind (also when it raises), and the calls it made.\<close>

type_synonym ('a, 'w) action = "'w \<Rightarrow> (exn + 'a) \<times> 'w \<times> entry list"

definition ret :: "'a \<Rightarrow> ('a, 'w) action" where
  "ret x w = (Inr x, w, [])"

definition raise :: "exn \<Rightarrow> ('a, 'w) action" where
  "raise e w = (Inl e, w, [])"

definition lift :: "exn + 'a \<Rightarrow> ('a, 'w) action" where
  "lift r w = (r, w, [])"

definition silent :: "('w \<Rightarrow> (exn + 'a) \<times> 'w) \<Rightarrow> ('a, 'w) action" where
  "silent f w = (case f w of (r, w') \<Rightarrow> (r, w', []))"

definition outcome :: "exn + 'a \<Rightarrow> exn option" where
  "outcome r = (case r of Inl e \<Rightarrow> Some e | Inr _ \<Rightarrow> None)"

definition call :: "call \<Rightarrow> ('w \<Rightarrow> (exn + 'a) \<times> 'w) \<Rightarrow> ('a, 'w) action" where
  "call c f w = (case f w of (r, w') \<Rightarrow> (r, w', [(c, outcome r)]))"

text \<open>Statement sequencing: an exception skips everything that follows.\<close>

definition seq :: "('a, 'w) action \<Rightarrow> ('a \<Rightarrow> ('b, 'w) action) \<Rightarrow> ('b, 'w) action" where
  "seq m f w =
     (case m w of
        (Inl e, w1, l1) \<Rightarrow> (Inl e, w1, l1)
      | (Inr x, w1, l1) \<Rightarrow> (case f x w1 of (r, w2, l2) \<Rightarrow> (r, w2, l1 @ l2)))"

subsection \<open>The collaborators\<close>

text \<open>
  The imported functions, in the order of the import statements, together with the two
  library functions whose result depends on the platform (\<^verbatim>\<open>os.path.expanduser\<close> and
  the parsing done by \<^verbatim>\<open>float\<close>). \<open>'g\<close> is whatever \<^verbatim>\<open>mapGenes\<close> returns.
\<close>

record ('g, 'w) env =
  sample_prep :: "string \<Rightarrow> bool \<Rightarrow> 'w \<Rightarrow> (exn + registry) \<times> 'w"
  demultiplex_fastq :: "string \<Rightarrow> registry \<Rightarrow> string \<Rightarrow> 'w \<Rightarrow> (exn + unit) \<times> 'w"
  trim_fastq :: "string \<Rightarrow> string \<Rightarrow> string \<Rightarrow> nat \<Rightarrow> 'w \<Rightarrow> (exn + unit) \<times> 'w"
  gbk2fna :: "string \<Rightarrow> string \<Rightarrow> string \<Rightarrow> 'w \<Rightarrow> (exn + unit) \<times> 'w"
  gbk2ftt :: "string \<Rightarrow> string \<Rightarrow> string \<Rightarrow> 'w \<Rightarrow> (exn + unit) \<times> 'w"
  bowtieBuild :: "string \<Rightarrow> 'w \<Rightarrow> (exn + unit) \<times> 'w"
  bowtieMap :: "string \<Rightarrow> string \<Rightarrow> string \<Rightarrow> 'w \<Rightarrow> (exn + unit) \<times> 'w"
  mapSites :: "string \<Rightarrow> 'w \<Rightarrow> (exn + unit) \<times> 'w"
  mapGenes :: "string \<Rightarrow> string \<Rightarrow> real \<Rightarrow> string \<Rightarrow> 'w \<Rightarrow> (exn + 'g) \<times> 'w"
  buildGeneTable :: "string \<Rightarrow> registry \<Rightarrow> (string \<times> 'g) list \<Rightarrow> string \<Rightarrow> 'w \<Rightarrow> (exn + unit) \<times> 'w"
  convert_to_filename :: "string \<Rightarrow> string"
  createExperimentDirectories :: "string \<Rightarrow> 'w \<Rightarrow> (exn + unit) \<times> 'w"
  expanduser :: "string \<Rightarrow> string"
  float_of_str :: "string \<Rightarrow> real option"

definition py_float :: "('g, 'w) env \<Rightarrow> pyval \<Rightarrow> exn + real" where
  "py_float env v =
     (case v of
        PyFloat r \<Rightarrow> Inr r
      | PyStr s \<Rightarrow> (case float_of_str env s of None \<Rightarrow> Inl ValueError | Some r \<Rightarrow> Inr r))"

subsection \<open>The context manager \<^verbatim>\<open>cd\<close>\<close>

text \<open>
  \<^verbatim>\<open>__init__\<close> expands the path, \<^verbatim>\<open>__enter__\<close> saves the working directory and changes
  it, \<^verbatim>\<open>__exit__\<close> changes back and returns \<^verbatim>\<open>None\<close>, so an exception of the body is
  raised again after it. The \<^verbatim>\<open>with\<close> statement runs \<^verbatim>\<open>__exit__\<close> whether the body
  returns or raises, and does not run it (nor the body) when \<^verbatim>\<open>__enter__\<close> raises.
\<close>

record cd =
  newPath :: string
  savedPath :: string

definition cd_init :: "('g, 'w) env \<Rightarrow> string \<Rightarrow> cd" where
  "cd_init env p = \<lparr> newPath = expanduser env p, savedPath = [] \<rparr>"

definition cd_enter :: "cd \<Rightarrow> 'x world_scheme \<Rightarrow> (exn + cd) \<times> 'x world_scheme" where
  "cd_enter self w =
     (let self' = self\<lparr>savedPath := os_getcwd w\<rparr>
      in case os_chdir (newPath self') w of
           (Inl e, w') \<Rightarrow> (Inl e, w')
         | (Inr _, w') \<Rightarrow> (Inr self', w'))"

definition cd_exit :: "cd \<Rightarrow> 'x world_scheme \<Rightarrow> (exn + unit) \<times> 'x world_scheme" where
  "cd_exit self w = os_chdir (savedPath self) w"

definition with_cd ::
  "('g, 'x world_scheme) env \<Rightarrow> string \<Rightarrow> ('a, 'x world_scheme) action \<Rightarrow> ('a, 'x world_scheme) action" where
  "with_cd env p body w =
     (case cd_enter (cd_init env p) w of
        (Inl e, w1) \<Rightarrow> (Inl e, w1, [])
      | (Inr self, w1) \<Rightarrow>
          (case body w1 of
             (r, w2, l) \<Rightarrow>
               (case cd_exit self w2 of
                  (Inl e, w3) \<Rightarrow> (Inl e, w3, l)
                | (Inr _, w3) \<Rightarrow> (r, w3, l))))"

subsection \<open>\<^verbatim>\<open>main\<close>\<close>

text \<open>Lines 63 to 81: the local variables fixed before anything is called.\<close>

record config =
  gbkfile :: string
  experiment' :: string
  reads :: string
  samples :: string
  disruption :: real
  nobarcodes :: bool
  organism :: string
  genomeDir :: string
  barcode_qc :: bool
  barcode_length :: nat

definition configure :: "('g, 'w) env \<Rightarrow> cli_opt list \<Rightarrow> exn + config" where
  "configure env argv =
     (case parseArgs argv of
        Inl e \<Rightarrow> Inl e
      | Inr args \<Rightarrow>
          (case py_float env (a_disruption args) of
             Inl e \<Rightarrow> Inl e
           | Inr d \<Rightarrow>
               Inr \<lparr> gbkfile = a_genome args,
                     experiment' = convert_to_filename env (a_experiment args),
                     reads = a_input args,
                     samples = a_samples args,
                     disruption = d,
                     nobarcodes = a_nobarcodes args,
                     organism = ''genome'',
                     genomeDir = convert_to_filename env (a_experiment args) @ ''/genome_lookup/'',
                     barcode_qc = (if a_nobarcodes args then False else True),
                     barcode_length = (if a_nobarcodes args then 0 else 4) \<rparr>))"

text \<open>Lines 92 to 100: every sample gets its two paths, in registry order.\<close>

definition demultiplexedPath_of :: "string \<Rightarrow> string \<Rightarrow> string" where
  "demultiplexedPath_of exper sampleName = exper @ ''/raw_data/'' @ sampleName @ ''.fastq.gz''"

definition trimmedPath_of :: "string \<Rightarrow> string \<Rightarrow> string" where
  "trimmedPath_of exper sampleName = exper @ ''/'' @ sampleName @ ''_trimmed.fastq''"

definition with_paths :: "string \<Rightarrow> string \<Rightarrow> sample \<Rightarrow> sample" where
  "with_paths exper sampleName s =
     AList.update ''trimmedPath'' (trimmedPath_of exper sampleName)
       (AList.update ''demultiplexedPath'' (demultiplexedPath_of exper sampleName) s)"

fun attach_paths :: "string \<Rightarrow> registry \<Rightarrow> exn + registry" where
  "attach_paths exper [] = Inr []"
| "attach_paths exper ((sample, s) # rest) =
     (case dict_get s ''name'' KeyError of
        Inl e \<Rightarrow> Inl e
      | Inr sampleName \<Rightarrow>
          (case attach_paths exper rest of
             Inl e \<Rightarrow> Inl e
           | Inr rest' \<Rightarrow> Inr ((sample, with_paths exper sampleName s) # rest')))"

text \<open>Lines 104 to 110: the loop that copies the reads of each sample; \<^verbatim>\<open>reads\<close> is
  assigned in the loop, so it is the loop's state. \<^verbatim>\<open>reads[-1]\<close> raises on the empty
  string.\<close>

definition with_slash :: "string \<Rightarrow> string" where
  "with_slash rds = (if last rds \<noteq> CHR ''/'' then rds @ ''/'' else rds)"

fun copy_loop :: "registry \<Rightarrow> string \<Rightarrow> (string, 'x world_scheme) action" where
  "copy_loop [] rds = ret rds"
| "copy_loop ((sample, s) # rest) rds =
     (if rds = [] then raise IndexError
      else
        (let rds' = with_slash rds;
             src = rds' @ sample @ ''.fastq.gz''
         in seq (lift (dict_get s ''demultiplexedPath'' KeyError)) (\<lambda>dst.
            seq (call (Copyfile src dst) (copyfile src dst)) (\<lambda>_.
            copy_loop rest rds'))))"

text \<open>Lines 126 to 143: the body of the loop over the samples, for the sample named
  \<open>sample\<close> with entry \<open>s\<close>; its value is what \<^verbatim>\<open>mapGenes\<close> returned.\<close>

definition process_sample ::
  "('g, 'x world_scheme) env \<Rightarrow> config \<Rightarrow> string \<Rightarrow> sample \<Rightarrow> ('g, 'x world_scheme) action" where
  "process_sample env c sample s =
     seq (lift (dict_get s ''demultiplexedPath'' KeyError)) (\<lambda>dp.
     seq (lift (dict_get s ''trimmedPath'' KeyError)) (\<lambda>tp.
     seq (call (Trim_fastq dp tp sample (barcode_length c))
            (trim_fastq env dp tp sample (barcode_length c))) (\<lambda>_.
     (let trimmedSampleFile = sample @ ''_trimmed.fastq'';
          bowtieOutputFile = sample @ ''_bowtie.txt''
      in
     seq (with_cd env (genomeDir c)
            (let bowtie_in = ''../'' @ trimmedSampleFile;
                 bowtie_out = ''../'' @ bowtieOutputFile
             in call (BowtieMap (organism c) bowtie_in bowtie_out)
                  (bowtieMap env (organism c) bowtie_in bowtie_out))) (\<lambda>_.
     seq (call (Os_remove tp) (os_remove tp)) (\<lambda>_.
     seq (call (MapSites (experiment' c @ ''/'' @ bowtieOutputFile))
            (mapSites env (experiment' c @ ''/'' @ bowtieOutputFile))) (\<lambda>_.
     call (MapGenes (organism c) sample (disruption c) (experiment' c))
       (mapGenes env (organism c) sample (disruption c) (experiment' c)))))))))"

text \<open>Lines 124 to 143: the loop; \<^verbatim>\<open>geneMappings\<close> is its state.\<close>

fun sample_loop ::
  "('g, 'x world_scheme) env \<Rightarrow> config \<Rightarrow> registry \<Rightarrow> (string \<times> 'g) list
     \<Rightarrow> ((string \<times> 'g) list, 'x world_scheme) action" where
  "sample_loop env c [] geneMappings = ret geneMappings"
| "sample_loop env c ((sample, s) # rest) geneMappings =
     seq (process_sample env c sample s) (\<lambda>g.
     sample_loop env c rest (AList.update sample g geneMappings))"

text \<open>Lines 102 to 144, with the registry as it stands after line 100.\<close>

definition process :: "('g, 'x world_scheme) env \<Rightarrow> config \<Rightarrow> registry \<Rightarrow> (unit, 'x world_scheme) action" where
  "process env c samplesDict =
     seq (if nobarcodes c
          then seq (copy_loop samplesDict (reads c)) (\<lambda>_. ret ())
          else call (Demultiplex_fastq (reads c) samplesDict (experiment' c))
                 (demultiplex_fastq env (reads c) samplesDict (experiment' c))) (\<lambda>_.
     seq (call (Gbk2fna (gbkfile c) (organism c) (genomeDir c))
            (gbk2fna env (gbkfile c) (organism c) (genomeDir c))) (\<lambda>_.
     seq (call (Gbk2ftt (gbkfile c) (organism c) (genomeDir c))
            (gbk2ftt env (gbkfile c) (organism c) (genomeDir c))) (\<lambda>_.
     seq (with_cd env (genomeDir c)
            (call (BowtieBuild (organism c)) (bowtieBuild env (organism c)))) (\<lambda>_.
     seq (sample_loop env c samplesDict []) (\<lambda>geneMappings.
     call (BuildGeneTable (organism c) samplesDict (map fst geneMappings) (experiment' c))
       (buildGeneTable env (organism c) samplesDict geneMappings (experiment' c)))))))"

text \<open>Lines 86 to 100, then the rest.\<close>

definition pipeline :: "('g, 'x world_scheme) env \<Rightarrow> config \<Rightarrow> (unit, 'x world_scheme) action" where
  "pipeline env c =
     seq (call (Sample_prep (samples c) (barcode_qc c))
            (sample_prep env (samples c) (barcode_qc c))) (\<lambda>samplesDict0.
     seq (call (CreateExperimentDirectories (experiment' c))
            (createExperimentDirectories env (experiment' c))) (\<lambda>_.
     seq (lift (attach_paths (experiment' c) samplesDict0)) (\<lambda>samplesDict.
     process env c samplesDict)))"

definition main :: "('g, 'x world_scheme) env \<Rightarrow> cli_opt list \<Rightarrow> (unit, 'x world_scheme) action" where
  "main env argv =
     (case configure env argv of
        Inl e \<Rightarrow> raise e
      | Inr c \<Rightarrow> pipeline env c)"

section \<open>What a run is expected to do\<close>

text \<open>
  The vocabulary of the statements below. \<open>emits_only act P\<close>: every call the action
  makes satisfies \<open>P\<close>. \<open>orderly act\<close>: only the last call of a run can have raised, and
  none has when the run returns. \<open>follows act sched Q\<close>: the calls made are a prefix of
  \<open>sched\<close>, and all of \<open>sched\<close> when the action returns, with a value satisfying \<open>Q\<close>.
  \<open>schedule c reg\<close> is the list of calls of a whole run for the configuration \<open>c\<close> and
  the registry \<open>reg\<close> (with its paths); \<open>issued_by c\<close> says which arguments a call of a
  run configured by \<open>c\<close> can carry.
\<close>

definition emits_only :: "('a, 'w) action \<Rightarrow> (call \<Rightarrow> bool) \<Rightarrow> bool" where
  "emits_only act P = (\<forall>w r w' l. act w = (r, w', l) \<longrightarrow> (\<forall>e \<in> set l. P (fst e)))"

definition orderly :: "('a, 'w) action \<Rightarrow> bool" where
  "orderly act =
     (\<forall>w r w' l. act w = (r, w', l) \<longrightarrow>
        (\<forall>e \<in> set (butlast l). snd e = None) \<and>
        ((\<exists>x. r = Inr x) \<longrightarrow> (\<forall>e \<in> set l. snd e = None)))"

definition field :: "sample \<Rightarrow> string \<Rightarrow> string" where
  "field s k = (case map_of s k of None \<Rightarrow> [] | Some v \<Rightarrow> v)"

definition sample_calls :: "config \<Rightarrow> string \<times> sample \<Rightarrow> call list" where
  "sample_calls c = (\<lambda>(sample, s).
     [Trim_fastq (field s ''demultiplexedPath'') (field s ''trimmedPath'') sample (barcode_length c),
      BowtieMap (organism c) (''../'' @ sample @ ''_trimmed.fastq'') (''../'' @ sample @ ''_bowtie.txt''),
      Os_remove (field s ''trimmedPath''),
      MapSites (experiment' c @ ''/'' @ sample @ ''_bowtie.txt''),
      MapGenes (organism c) sample (disruption c) (experiment' c)])"

definition staging_calls :: "config \<Rightarrow> registry \<Rightarrow> call list" where
  "staging_calls c reg =
     (if nobarcodes c
      then map (\<lambda>(sample, s). Copyfile (with_slash (reads c) @ sample @ ''.fastq.gz'')
                                 (field s ''demultiplexedPath'')) reg
      else [Demultiplex_fastq (reads c) reg (experiment' c)])"

definition genome_calls :: "config \<Rightarrow> call list" where
  "genome_calls c =
     [Gbk2fna (gbkfile c) (organism c) (genomeDir c),
      Gbk2ftt (gbkfile c) (organism c) (genomeDir c),
      BowtieBuild (organism c)]"

fun mapping_keys :: "string list \<Rightarrow> string list \<Rightarrow> string list" where
  "mapping_keys acc [] = acc"
| "mapping_keys acc (k # ks) = mapping_keys (if k \<in> set acc then acc else acc @ [k]) ks"

definition table_call :: "config \<Rightarrow> registry \<Rightarrow> call" where
  "table_call c reg =
     BuildGeneTable (organism c) reg (mapping_keys [] (map fst reg)) (experiment' c)"

definition schedule :: "config \<Rightarrow> registry \<Rightarrow> call list" where
  "schedule c reg =
     [Sample_prep (samples c) (barcode_qc c), CreateExperimentDirectories (experiment' c)]
     @ staging_calls c reg @ genome_calls c
     @ concat (map (sample_calls c) reg) @ [table_call c reg]"

definition follows :: "('a, 'w) action \<Rightarrow> call list \<Rightarrow> ('a \<Rightarrow> bool) \<Rightarrow> bool" where
  "follows act sched Q =
     (\<forall>w r w' l. act w = (r, w', l) \<longrightarrow>
        prefix (map fst l) sched \<and> (\<forall>x. r = Inr x \<longrightarrow> map fst l = sched \<and> Q x))"

fun issued_by :: "config \<Rightarrow> call \<Rightarrow> bool" where
  "issued_by c (Sample_prep p qc) = (p = samples c \<and> qc = barcode_qc c)"
| "issued_by c (CreateExperimentDirectories e) = (e = experiment' c)"
| "issued_by c (Copyfile src dst) =
     (nobarcodes c \<and> reads c \<noteq> [] \<and> prefix (with_slash (reads c)) src \<and> suffix ''.fastq.gz'' src)"
| "issued_by c (Demultiplex_fastq rd reg e) = (\<not> nobarcodes c \<and> rd = reads c \<and> e = experiment' c)"
| "issued_by c (Gbk2fna g org d) = (g = gbkfile c \<and> org = organism c \<and> d = genomeDir c)"
| "issued_by c (Gbk2ftt g org d) = (g = gbkfile c \<and> org = organism c \<and> d = genomeDir c)"
| "issued_by c (BowtieBuild org) = (org = organism c)"
| "issued_by c (Trim_fastq dp tp sample bl) = (bl = barcode_length c)"
| "issued_by c (BowtieMap org i out) = (org = organism c)"
| "issued_by c (Os_remove p) = True"
| "issued_by c (MapSites p) = True"
| "issued_by c (MapGenes org sample d e) = (org = organism c \<and> d = disruption c \<and> e = experiment' c)"
| "issued_by c (BuildGeneTable org reg ks e) = (org = organism c \<and> e = experiment' c)"

section \<open>A laboratory\<close>

text \<open>
  A small concrete environment on which the statements below are evaluated: the
  sample list yields the registry \<open>reg\<close>, demultiplexing and trimming write their
  output files, the aligner fails for the sample \<open>bad\<close> and for no other, and the
  experiment directories are created on request.
\<close>

definition lab_env :: "registry \<Rightarrow> string \<Rightarrow> (nat, world) env" where
  "lab_env reg bad =
     \<lparr> sample_prep = (\<lambda>path qc w. (Inr reg, w)),
       demultiplex_fastq = (\<lambda>rds d ex w.
          (Inr (), w\<lparr>files := files w \<union> set (map (\<lambda>(k, s). abspath (cwd w) (demultiplexedPath_of ex k)) d)\<rparr>)),
       trim_fastq = (\<lambda>dp tp sample bl w.
          if abspath (cwd w) dp \<in> files w
          then (Inr (), w\<lparr>files := insert (abspath (cwd w) tp) (files w)\<rparr>)
          else (Inl (Failure ''trim_fastq''), w)),
       gbk2fna = (\<lambda>g org dir w. (Inr (), w)),
       gbk2ftt = (\<lambda>g org dir w. (Inr (), w)),
       bowtieBuild = (\<lambda>org w. (Inr (), w)),
       bowtieMap = (\<lambda>org i out w.
          if i = ''../'' @ bad @ ''_trimmed.fastq'' then (Inl (Failure ''bowtie''), w)
          else (Inr (), w)),
       mapSites = (\<lambda>p w. (Inr (), w)),
       mapGenes = (\<lambda>org sample d ex w. (Inr (length sample), w)),
       buildGeneTable = (\<lambda>org d gm ex w. (Inr (), w)),
       convert_to_filename = (\<lambda>s. s),
       createExperimentDirectories = (\<lambda>ex w.
          (Inr (), w\<lparr>dirs := insert (abspath (cwd w) (ex @ ''/genome_lookup/'')) (dirs w)\<rparr>)),
       expanduser = (\<lambda>p. p),
       float_of_str = (\<lambda>s. if s = ''2.5'' then Some (5 / 2) else if s = ''0.5'' then Some (1 / 2) else None) \<rparr>"

text \<open>Two samples, a world with the reads of both, and a context body that raises.\<close>

definition two_samples :: registry where
  "two_samples = [(''A'', [(''name'', ''A''), (''barcode'', ''ACGT'')]),
                  (''B'', [(''name'', ''B''), (''barcode'', ''TTTT'')])]"

definition lab_world :: world where
  "lab_world = \<lparr> cwd = ''/w'', dirs = {''/w'', ''/w/e/genome_lookup/''},
                 files = {''/w/r/A.fastq.gz'', ''/w/r/B.fastq.gz''} \<rparr>"

definition failing_body :: "(unit, world) action" where
  "failing_body = call (BowtieBuild ''genome'') (\<lambda>w. (Inl (Failure ''bowtie-build''), w))"

definition base_argv :: "cli_opt list" where
  "base_argv = [Opt_input ''r.fastq.gz'', Opt_samples ''s.txt'', Opt_experiment ''e'', Opt_genome ''g.gbk'']"

definition lab_registry :: registry where
  "lab_registry =
     [(''A'', [(''name'', ''A''), (''barcode'', ''ACGT''),
               (''demultiplexedPath'', ''e/raw_data/A.fastq.gz''),
               (''trimmedPath'', ''e/A_trimmed.fastq'')]),
      (''B'', [(''name'', ''B''), (''barcode'', ''TTTT''),
               (''demultiplexedPath'', ''e/raw_data/B.fastq.gz''),
               (''trimmedPath'', ''e/B_trimmed.fastq'')])]"

fun is_table :: "call \<Rightarrow> bool" where
  "is_table (BuildGeneTable org reg ks e) = True"
| "is_table _ = False"

definition lab_config :: config where
  "lab_config =
     \<lparr> gbkfile = ''g.gbk'', experiment' = ''e'', reads = ''r.fastq.gz'', samples = ''s.txt'',
       disruption = 1, nobarcodes = False, organism = ''genome'',
       genomeDir = ''e/genome_lookup/'', barcode_qc = True, barcode_length = 4 \<rparr>"

definition table_last :: "('a, 'w) action \<Rightarrow> bool" where
  "table_last act =
     (\<forall>w r w' l. act w = (r, w', l) \<longrightarrow> (\<forall>e \<in> set (butlast l). \<not> is_table (fst e)))"

fun is_staging :: "call \<Rightarrow> bool" where
  "is_staging (Demultiplex_fastq rd reg e) = True"
| "is_staging (Copyfile src dst) = True"
| "is_staging _ = False"

definition nobarcodes_argv :: "string \<Rightarrow> cli_opt list" where
  "nobarcodes_argv rds =
     [Opt_input rds, Opt_samples ''s.txt'', Opt_experiment ''e'', Opt_genome ''g.gbk'',
      Opt_nobarcodes]"

definition nobarcodes_config :: "string \<Rightarrow> config" where
  "nobarcodes_config rds =
     \<lparr> gbkfile = ''g.gbk'', experiment' = ''e'', reads = rds, samples = ''s.txt'',
       disruption = 1, nobarcodes = True, organism = ''genome'',
       genomeDir = ''e/genome_lookup/'', barcode_qc = False, barcode_length = 0 \<rparr>"

text \<open>The call that builds the registry, the call that builds the feature table, and the
  calls made for one sample inside the loop.\<close>

fun is_sample_prep :: "call \<Rightarrow> bool" where
  "is_sample_prep (Sample_prep p qc) = True"
| "is_sample_prep _ = False"

fun is_gbk2ftt :: "call \<Rightarrow> bool" where
  "is_gbk2ftt (Gbk2ftt g org d) = True"
| "is_gbk2ftt _ = False"

fun is_per_sample :: "call \<Rightarrow> bool" where
  "is_per_sample (Trim_fastq dp tp sample n) = True"
| "is_per_sample (BowtieMap org i out) = True"
| "is_per_sample (Os_remove p) = True"
| "is_per_sample (MapSites p) = True"
| "is_per_sample (MapGenes org sample d e) = True"
| "is_per_sample _ = False"

definition setup_calls :: "config \<Rightarrow> registry \<Rightarrow> call list" where
  "setup_calls c reg =
     [Sample_prep (samples c) (barcode_qc c), CreateExperimentDirectories (experiment' c)]
     @ staging_calls c reg @ genome_calls c"

text \<open>
  Modelled from the spec: \<^verbatim>\<open>sample_prep\<close> is imported from the module \<^verbatim>\<open>demultiplex\<close>
  (line 8), which is not among the sources. Section 4.1 of the specification gives it as
  \<^verbatim>\<open>load(sample_list, validate_barcodes)\<close>, which returns the ordered mapping or fails
  on a malformed list, with "Side effect: none beyond returning the in-memory mapping".
  So what it returns may depend on what it reads (\<open>parse\<close>, left open), and the world
  is handed back as it was found.
\<close>

definition load ::
  "('w \<Rightarrow> string \<Rightarrow> bool \<Rightarrow> exn + registry) \<Rightarrow> string \<Rightarrow> bool \<Rightarrow> 'w \<Rightarrow> (exn + registry) \<times> 'w" where
  "load parse sample_list validate_barcodes w = (parse w sample_list validate_barcodes, w)"

text \<open>An entry after lines 93 to 100, seen from the entry before them: the same
  sample with its two paths set from the experiment and the sample's name.\<close>

definition paths_attached :: "string \<Rightarrow> string \<times> sample \<Rightarrow> string \<times> sample \<Rightarrow> bool" where
  "paths_attached exper before after =
     (fst after = fst before
      \<and> (\<exists>n. map_of (snd before) ''name'' = Some n
            \<and> map_of (snd after) =
                (map_of (snd before))
                  (''demultiplexedPath'' \<mapsto> demultiplexedPath_of exper n,
                   ''trimmedPath'' \<mapsto> trimmedPath_of exper n)))"

text \<open>The trimmed file of a registry entry as a place on disk, for a run started in the
  directory \<open>d\<close>.\<close>

definition trimmed_at :: "string \<Rightarrow> string \<times> sample \<Rightarrow> string" where
  "trimmed_at d = (\<lambda>(sample, s). abspath d (field s ''trimmedPath''))"

text \<open>
  What the statement about the trimmed files needs of the collaborators called inside
  the loop, none of which is in the source: they leave the working directory where it
  was (\<^verbatim>\<open>bowtieMap\<close>, which runs inside \<^verbatim>\<open>with cd\<close>, need not), and among the paths
  \<open>T\<close> they create no file, except that \<^verbatim>\<open>trim_fastq\<close> may write the output file it was
  asked for.
\<close>

definition leaves_alone :: "('g, 'x world_scheme) env \<Rightarrow> string set \<Rightarrow> bool" where
  "leaves_alone env T =
     ((\<forall>dp tp sample n w r w'. trim_fastq env dp tp sample n w = (r, w') \<longrightarrow>
          cwd w' = cwd w \<and> files w' \<inter> T \<subseteq> insert (abspath (cwd w) tp) (files w))
    \<and> (\<forall>org i out w r w'. bowtieMap env org i out w = (r, w') \<longrightarrow> files w' \<inter> T \<subseteq> files w)
    \<and> (\<forall>p w r w'. mapSites env p w = (r, w') \<longrightarrow> cwd w' = cwd w \<and> files w' \<inter> T \<subseteq> files w)
    \<and> (\<forall>org sample d e w r w'. mapGenes env org sample d e w = (r, w') \<longrightarrow>
          cwd w' = cwd w \<and> files w' \<inter> T \<subseteq> files w))"

text \<open>The world after set-up in the laboratory: the reads of both samples are in place.\<close>

definition staged_world :: world where
  "staged_world = \<lparr> cwd = ''/w'', dirs = {''/w'', ''/w/e/genome_lookup/''},
                    files = {''/w/e/raw_data/A.fastq.gz'', ''/w/e/raw_data/B.fastq.gz''} \<rparr>"

text \<open>A context body that returns after the directory the run was started in has been
  removed, as any program run in between may do.\<close>

definition removing_body :: "(unit, world) action" where
  "removing_body =
     call (BowtieBuild ''genome'') (\<lambda>w. (Inr (), w\<lparr>dirs := dirs w - {''/w''}\<rparr>))"

text \<open>A read record: identifier, sequence and quality string.\<close>

type_synonym read = "string \<times> string \<times> string"

text \<open>
  Modelled from the spec: \<^verbatim>\<open>demultiplex_fastq\<close> is imported from the module
  \<^verbatim>\<open>demultiplex\<close> (line 8), which is not among the sources, and \<^verbatim>\<open>main\<close> hands it
  the reads, the registry and the experiment name (line 113), as in section 4.2 of the
  specification (\<^verbatim>\<open>run(pooled_reads_path, registry, output_dir)\<close>). The length of the
  prefix it matches on is, by section 6, "a pipeline-wide constant (4 in the reference
  configuration) used by both Demultiplexer and Trimmer"; by section 4.2 it will "extract
  the leading barcode-length prefix of the sequence" of each read.
\<close>

definition demultiplexer_barcode_length :: nat where
  "demultiplexer_barcode_length = 4"

definition barcode_prefix :: "read \<Rightarrow> string" where
  "barcode_prefix = (\<lambda>(ident, bases, quality). take demultiplexer_barcode_length bases)"

text \<open>
  Modelled from the spec: \<^verbatim>\<open>trim_fastq\<close> is imported from the same missing module.
  Section 4.3 of the specification gives it as
  \<^verbatim>\<open>trim(input_path, output_path, sample_name, barcode_length)\<close>, which "removes the
  first barcode_length bases (and corresponding quality characters) from every read; if
  barcode_length is zero (barcodes pre-removed upstream), the stream is copied through
  unchanged", and drops the reads shorter than \<^verbatim>\<open>barcode_length\<close>. The normalization of
  the format is not part of the model.
\<close>

definition trim_read :: "nat \<Rightarrow> read \<Rightarrow> read" where
  "trim_read n = (\<lambda>(ident, bases, quality). (ident, drop n bases, drop n quality))"

definition trim :: "nat \<Rightarrow> read list \<Rightarrow> read list" where
  "trim n rds = map (trim_read n) (filter (\<lambda>(ident, bases, quality). n \<le> length bases) rds)"

section \<open>The context manager restores the working directory\<close>

lemma abspath_abs: "is_abs p \<Longrightarrow> abspath d p = p"
  by (simp add: abspath_def)

text \<open>
  Claim C8 as stated fails: when the body has removed the directory that was saved on
  entry, \<^verbatim>\<open>__exit__\<close> cannot change back; the \<^verbatim>\<open>with\<close> statement ends with the
  \<^verbatim>\<open>OSError\<close> of \<^verbatim>\<open>os.chdir\<close> and the working directory is still the one the context
  had entered.
\<close>

theorem cd_not_restored_counterexample:
  "cwd lab_world = ''/w''
   \<and> cd_enter (cd_init (lab_env [] []) ''e/genome_lookup/'') lab_world
       = (Inr \<lparr>newPath = ''e/genome_lookup/'', savedPath = ''/w''\<rparr>,
          lab_world\<lparr>cwd := ''/w/e/genome_lookup/''\<rparr>)
   \<and> fst (with_cd (lab_env [] []) ''e/genome_lookup/'' removing_body lab_world)
       = Inl (OSError ''/w'')
   \<and> cwd (fst (snd (with_cd (lab_env [] []) ''e/genome_lookup/'' removing_body lab_world)))
       = ''/w/e/genome_lookup/''
   \<and> cwd (fst (snd (with_cd (lab_env [] []) ''e/genome_lookup/'' removing_body lab_world)))
       \<noteq> cwd lab_world"
  by (simp add: with_cd_def cd_enter_def cd_init_def cd_exit_def lab_env_def lab_world_def
      os_chdir_def os_getcwd_def abspath_def is_abs_def removing_body_def call_def outcome_def)

text \<open>
  Claim C8 as amended. Once \<^verbatim>\<open>__enter__\<close> has succeeded, whatever the body does and
  whether it returns or raises, the \<^verbatim>\<open>with\<close> statement ends with the body's own result
  and with the working directory that was saved on entry, provided that directory can
  still be entered when the body is done (\<^verbatim>\<open>os.getcwd\<close> gives an absolute path).
\<close>

theorem cd_restores:
  assumes "is_abs (cwd w)"
    and "cd_enter (cd_init env p) w = (Inr self, w1)"
    and "body w1 = (r, w2, l)"
    and "cwd w \<in> dirs w2"
  shows "\<exists>w3. with_cd env p body w = (r, w3, l) \<and> cwd w3 = cwd w"
  using assms
  by (auto simp: with_cd_def cd_enter_def cd_exit_def cd_init_def os_chdir_def os_getcwd_def
      abspath_abs Let_def split: if_splits)

theorem cd_restores_witness:
  "is_abs (cwd lab_world)
   \<and> cd_enter (cd_init (lab_env [] []) ''e/genome_lookup/'') lab_world
       = (Inr \<lparr>newPath = ''e/genome_lookup/'', savedPath = ''/w''\<rparr>,
          lab_world\<lparr>cwd := ''/w/e/genome_lookup/''\<rparr>)
   \<and> failing_body (lab_world\<lparr>cwd := ''/w/e/genome_lookup/''\<rparr>)
       = (Inl (Failure ''bowtie-build''), lab_world\<lparr>cwd := ''/w/e/genome_lookup/''\<rparr>,
          [(BowtieBuild ''genome'', Some (Failure ''bowtie-build''))])
   \<and> (\<exists>w3. with_cd (lab_env [] []) ''e/genome_lookup/'' failing_body lab_world
             = (Inl (Failure ''bowtie-build''), w3,
                [(BowtieBuild ''genome'', Some (Failure ''bowtie-build''))])
           \<and> cwd w3 = ''/w'')"
proof -
  have a: "is_abs (cwd lab_world)"
    by (simp add: lab_world_def is_abs_def)
  have b: "cd_enter (cd_init (lab_env [] []) ''e/genome_lookup/'') lab_world
       = (Inr \<lparr>newPath = ''e/genome_lookup/'', savedPath = ''/w''\<rparr>,
          lab_world\<lparr>cwd := ''/w/e/genome_lookup/''\<rparr>)"
    by (simp add: cd_enter_def cd_init_def lab_env_def lab_world_def os_chdir_def os_getcwd_def
        abspath_def is_abs_def)
  have c: "failing_body (lab_world\<lparr>cwd := ''/w/e/genome_lookup/''\<rparr>)
       = (Inl (Failure ''bowtie-build''), lab_world\<lparr>cwd := ''/w/e/genome_lookup/''\<rparr>,
          [(BowtieBuild ''genome'', Some (Failure ''bowtie-build''))])"
    by (simp add: failing_body_def call_def outcome_def)
  have d: "cwd lab_world \<in> dirs (lab_world\<lparr>cwd := ''/w/e/genome_lookup/''\<rparr>)"
    by (simp add: lab_world_def)
  from cd_restores [where body = failing_body, OF a b c d] a b c show ?thesis
    by (simp add: lab_world_def)
qed

section \<open>Sequencing, calls and the order of a run\<close>

lemma seqE:
  assumes "seq m f w = (r, w', l)"
  obtains (raised) e where "m w = (Inl e, w', l)" "r = Inl e"
  | (returned) x w1 l1 l2 where "m w = (Inr x, w1, l1)" "f x w1 = (r, w', l2)" "l = l1 @ l2"
  using assms by (auto simp: seq_def split: prod.splits sum.splits)

lemma callE:
  assumes "call c f w = (r, w', l)"
  obtains "f w = (r, w')" "l = [(c, outcome r)]"
  using assms by (auto simp: call_def split: prod.splits)

lemma with_cdE:
  assumes "with_cd env p body w = (r, w', l)"
  obtains (no_entry) e where "r = Inl e" "l = []"
  | (ran) w1 w2 rb where "body w1 = (rb, w2, l)" "r = rb \<or> (\<exists>e. r = Inl e)"
      "(\<exists>x. r = Inr x) \<longrightarrow> r = rb"
  using assms
  by (auto simp: with_cd_def split: prod.splits sum.splits)

lemma emits_only_ret [intro!]: "emits_only (ret x) P"
  by (simp add: emits_only_def ret_def)
lemma emits_only_raise [intro!]: "emits_only (raise e) P"
  by (simp add: emits_only_def raise_def)
lemma emits_only_lift [intro!]: "emits_only (lift r) P"
  by (simp add: emits_only_def lift_def)
lemma emits_only_call [intro!]: "P c \<Longrightarrow> emits_only (call c f) P"
  by (auto simp: emits_only_def elim!: callE)
lemma emits_only_seq [intro!]:
  "emits_only m P \<Longrightarrow> (\<And>x. emits_only (f x) P) \<Longrightarrow> emits_only (seq m f) P"
  unfolding emits_only_def by (fastforce elim!: seqE)
lemma emits_only_with_cd [intro!]: "emits_only body P \<Longrightarrow> emits_only (with_cd env p body) P"
  unfolding emits_only_def by (fastforce elim!: with_cdE)

lemma orderly_ret [intro!]: "orderly (ret x)"
  by (simp add: orderly_def ret_def)
lemma orderly_raise [intro!]: "orderly (raise e)"
  by (simp add: orderly_def raise_def)
lemma orderly_lift [intro!]: "orderly (lift r)"
  by (simp add: orderly_def lift_def)
lemma orderly_call [intro!]: "orderly (call c f)"
  by (auto simp: orderly_def outcome_def elim!: callE)
lemma orderly_seq [intro!]:
  assumes "orderly m" "\<And>x. orderly (f x)"
  shows "orderly (seq m f)"
  unfolding orderly_def
proof (intro allI impI)
  fix w r w' l
  assume run: "seq m f w = (r, w', l)"
  from run show "(\<forall>e\<in>set (butlast l). snd e = None) \<and> ((\<exists>x. r = Inr x) \<longrightarrow> (\<forall>e\<in>set l. snd e = None))"
  proof (cases rule: seqE)
    case (raised e)
    with assms(1) show ?thesis by (auto simp: orderly_def)
  next
    case (returned x w1 l1 l2)
    from assms(1) returned(1) have a: "\<forall>e\<in>set l1. snd e = None" by (auto simp: orderly_def)
    from assms(2) returned(2) have b: "\<forall>e\<in>set (butlast l2). snd e = None"
      and c: "(\<exists>x. r = Inr x) \<longrightarrow> (\<forall>e\<in>set l2. snd e = None)"
      unfolding orderly_def by blast+
    show ?thesis using a b c returned(3)
      by (auto simp: butlast_append dest: in_set_butlastD)
  qed
qed
lemma orderly_with_cd [intro!]: "orderly body \<Longrightarrow> orderly (with_cd env p body)"
  unfolding orderly_def by (fastforce elim!: with_cdE)

lemma emits_only_copy_loop:
  "(\<And>src dst. P (Copyfile src dst)) \<Longrightarrow> emits_only (copy_loop reg rds) P"
  by (induction reg rds rule: copy_loop.induct) (auto simp: Let_def)

lemma orderly_copy_loop: "orderly (copy_loop reg rds)"
  by (induction reg rds rule: copy_loop.induct) (auto simp: Let_def)

lemma follows_seq:
  assumes "follows m s1 P" "\<And>x. P x \<Longrightarrow> follows (f x) s2 Q"
  shows "follows (seq m f) (s1 @ s2) Q"
  unfolding follows_def
proof (intro allI impI)
  fix w r w' l
  assume "seq m f w = (r, w', l)"
  then show "prefix (map fst l) (s1 @ s2) \<and> (\<forall>x. r = Inr x \<longrightarrow> map fst l = s1 @ s2 \<and> Q x)"
  proof (cases rule: seqE)
    case (raised e)
    with assms(1) show ?thesis by (auto simp: follows_def)
  next
    case (returned x w1 l1 l2)
    from assms(1) returned(1) have a: "map fst l1 = s1" "P x" by (auto simp: follows_def)
    from assms(2) [OF a(2)] returned(2) have "prefix (map fst l2) s2"
      "\<forall>y. r = Inr y \<longrightarrow> map fst l2 = s2 \<and> Q y" unfolding follows_def by blast+
    with a returned(3) show ?thesis by auto
  qed
qed

lemma follows_call: "follows (call c f) [c] (\<lambda>_. True)"
  by (auto simp: follows_def elim!: callE)

lemma follows_with_cd: "follows body s Q \<Longrightarrow> follows (with_cd env p body) s Q"
  unfolding follows_def by (fastforce elim!: with_cdE)

lemma follows_process_sample:
  "follows (process_sample env c sample s) (sample_calls c (sample, s)) (\<lambda>_. True)"
  unfolding follows_def process_sample_def Let_def
  by (auto elim!: seqE callE with_cdE
      simp: lift_def dict_get_def field_def sample_calls_def split: option.splits)

lemma orderly_process_sample: "orderly (process_sample env c sample s)"
  unfolding process_sample_def Let_def by auto

lemma map_fst_update:
  "map fst (AList.update k v al) = (if k \<in> set (map fst al) then map fst al else map fst al @ [k])"
  by (induction al) auto

lemma follows_sample_loop:
  "follows (sample_loop env c reg gm) (concat (map (sample_calls c) reg))
     (\<lambda>gm'. map fst gm' = mapping_keys (map fst gm) (map fst reg))"
proof (induction reg arbitrary: gm)
  case Nil
  show ?case by (simp add: follows_def ret_def)
next
  case (Cons a reg)
  obtain sample s where a: "a = (sample, s)" by (cases a)
  have "follows (seq (process_sample env c sample s)
                   (\<lambda>g. sample_loop env c reg (AList.update sample g gm)))
          (sample_calls c (sample, s) @ concat (map (sample_calls c) reg))
          (\<lambda>gm'. map fst gm' = mapping_keys (map fst gm) (map fst ((sample, s) # reg)))"
  proof (rule follows_seq [OF follows_process_sample])
    fix g
    from Cons.IH [of "AList.update sample g gm"]
    show "follows (sample_loop env c reg (AList.update sample g gm)) (concat (map (sample_calls c) reg))
       (\<lambda>gm'. map fst gm' = mapping_keys (map fst gm) (map fst ((sample, s) # reg)))"
      by (simp add: map_fst_update)
  qed
  then show ?case by (simp add: a)
qed

lemma orderly_sample_loop: "orderly (sample_loop env c reg gm)"
  by (induction reg arbitrary: gm) (auto intro: orderly_process_sample)

lemma with_slash_idem: "rds \<noteq> [] \<Longrightarrow> with_slash (with_slash rds) = with_slash rds"
  by (simp add: with_slash_def)

lemma with_slash_nonempty: "rds \<noteq> [] \<Longrightarrow> with_slash rds \<noteq> []"
  by (simp add: with_slash_def)

lemma follows_copy_loop:
  "follows (copy_loop reg rds :: (string, 'x world_scheme) action)
     (map (\<lambda>(sample, s). Copyfile (with_slash rds @ sample @ ''.fastq.gz'')
                            (field s ''demultiplexedPath'')) reg) (\<lambda>_. True)"
proof (induction reg rds rule: copy_loop.induct)
  case (1 rds)
  show ?case by (simp add: follows_def ret_def)
next
  case (2 sample s rest rds)
  show ?case
  proof (cases "rds = []")
    case True
    then show ?thesis by (simp add: follows_def raise_def)
  next
    case False
    have ih: "follows (copy_loop rest (with_slash rds) :: (string, 'x world_scheme) action)
         (map (\<lambda>(sample, s). Copyfile (with_slash rds @ sample @ ''.fastq.gz'')
                            (field s ''demultiplexedPath'')) rest) (\<lambda>_. True)"
      using 2 [OF False refl refl] by (simp add: with_slash_idem False)
    have "follows (seq (lift (dict_get s ''demultiplexedPath'' KeyError)) (\<lambda>dst.
            seq (call (Copyfile (with_slash rds @ sample @ ''.fastq.gz'') dst)
                   (copyfile (with_slash rds @ sample @ ''.fastq.gz'') dst)) (\<lambda>_.
            copy_loop rest (with_slash rds))) :: (string, 'x world_scheme) action)
          ([] @ [Copyfile (with_slash rds @ sample @ ''.fastq.gz'') (field s ''demultiplexedPath'')]
            @ map (\<lambda>(sample, s). Copyfile (with_slash rds @ sample @ ''.fastq.gz'')
                            (field s ''demultiplexedPath'')) rest) (\<lambda>_. True)"
    proof (rule follows_seq [where P = "\<lambda>dst. dst = field s ''demultiplexedPath''"])
      show "follows (lift (dict_get s ''demultiplexedPath'' KeyError)) []
              (\<lambda>dst. dst = field s ''demultiplexedPath'')"
        by (auto simp: follows_def lift_def dict_get_def field_def split: option.splits)
    next
      fix dst :: string
      assume d: "dst = field s ''demultiplexedPath''"
      show "follows (seq (call (Copyfile (with_slash rds @ sample @ ''.fastq.gz'') dst)
                   (copyfile (with_slash rds @ sample @ ''.fastq.gz'') dst)) (\<lambda>_.
            copy_loop rest (with_slash rds)) :: (string, 'x world_scheme) action)
          ([Copyfile (with_slash rds @ sample @ ''.fastq.gz'') (field s ''demultiplexedPath'')]
            @ map (\<lambda>(sample, s). Copyfile (with_slash rds @ sample @ ''.fastq.gz'')
                            (field s ''demultiplexedPath'')) rest) (\<lambda>_. True)"
        unfolding d by (rule follows_seq [where P = "\<lambda>_. True"], rule follows_call, rule ih)
    qed
    with False show ?thesis by (simp add: Let_def)
  qed
qed

lemma follows_ret: "Q x \<Longrightarrow> follows (ret x) [] Q"
  by (simp add: follows_def ret_def)

lemma follows_staging:
  "follows (if nobarcodes c
            then seq (copy_loop reg (reads c)) (\<lambda>_. ret ())
            else call (Demultiplex_fastq (reads c) reg (experiment' c))
                   (demultiplex_fastq env (reads c) reg (experiment' c)))
     (staging_calls c reg) (\<lambda>_. True)"
proof (cases "nobarcodes c")
  case True
  have "follows (seq (copy_loop reg (reads c)) (\<lambda>_. ret ()) :: (unit, 'x world_scheme) action)
          (map (\<lambda>(sample, s). Copyfile (with_slash (reads c) @ sample @ ''.fastq.gz'')
                            (field s ''demultiplexedPath'')) reg @ []) (\<lambda>_. True)"
    by (rule follows_seq [OF follows_copy_loop]) (rule follows_ret, simp)
  with True show ?thesis by (simp add: staging_calls_def)
next
  case False
  then show ?thesis by (simp add: staging_calls_def follows_call)
qed

lemma follows_process:
  "follows (process env c reg)
     (staging_calls c reg @ genome_calls c @ concat (map (sample_calls c) reg) @ [table_call c reg])
     (\<lambda>_. True)"
  unfolding process_def genome_calls_def
  apply (rule follows_seq [OF follows_staging])
  apply (simp only: append_Cons append_Nil)
  apply (rule follows_seq [where ?s1.0 = "[_]" and P = "\<lambda>_. True", simplified], rule follows_call)
  apply (rule follows_seq [where ?s1.0 = "[_]" and P = "\<lambda>_. True", simplified], rule follows_call)
  apply (rule follows_seq [where ?s1.0 = "[_]" and P = "\<lambda>_. True", simplified],
         rule follows_with_cd, rule follows_call)
  apply (rule follows_seq [OF follows_sample_loop])
  apply (simp add: table_call_def follows_call)
  done

lemma orderly_process: "orderly (process env c reg)"
  unfolding process_def by (auto intro: orderly_copy_loop orderly_sample_loop)

lemma emits_only_copy_loop_src:
  "emits_only (copy_loop reg rds)
     (\<lambda>x. \<exists>src dst. x = Copyfile src dst \<and>
            rds \<noteq> [] \<and> prefix (with_slash rds) src \<and> suffix ''.fastq.gz'' src)"
proof (induction reg rds rule: copy_loop.induct)
  case (1 rds)
  show ?case by auto
next
  case (2 sample s rest rds)
  show ?case
  proof (cases "rds = []")
    case True
    then show ?thesis by auto
  next
    case False
    from 2 [OF False refl refl] False
    have "emits_only (copy_loop rest (with_slash rds) :: (string, 'a world_scheme) action)
            (\<lambda>x. \<exists>src dst. x = Copyfile src dst \<and>
               rds \<noteq> [] \<and> prefix (with_slash rds) src \<and> suffix ''.fastq.gz'' src)"
      by (simp add: with_slash_idem with_slash_nonempty)
    with False show ?thesis
      by (auto simp: Let_def suffix_def)
  qed
qed

lemma emits_only_weaken:
  "emits_only act P \<Longrightarrow> (\<And>x. P x \<Longrightarrow> Q x) \<Longrightarrow> emits_only act Q"
  by (auto simp: emits_only_def)

lemma emits_only_process_sample: "emits_only (process_sample env c sample s) (issued_by c)"
  unfolding process_sample_def Let_def by auto

lemma emits_only_sample_loop: "emits_only (sample_loop env c reg gm) (issued_by c)"
  by (induction reg arbitrary: gm) (auto intro: emits_only_process_sample)

lemma emits_only_copy_loop_issued:
  "nobarcodes c \<Longrightarrow> emits_only (copy_loop reg (reads c)) (issued_by c)"
  by (rule emits_only_weaken [OF emits_only_copy_loop_src]) auto

lemma emits_only_process: "emits_only (process env c reg) (issued_by c)"
  unfolding process_def
  by (auto intro!: emits_only_sample_loop emits_only_copy_loop_issued)

lemma emits_only_pipeline: "emits_only (pipeline env c) (issued_by c)"
  unfolding pipeline_def by (auto intro!: emits_only_process)

lemma orderly_pipeline: "orderly (pipeline env c)"
  unfolding pipeline_def by (auto intro!: orderly_process)

lemma main_configured: "configure env argv = Inr c \<Longrightarrow> main env argv = pipeline env c"
  by (simp add: main_def)

lemma main_refused: "configure env argv = Inl e \<Longrightarrow> main env argv w = (Inl e, w, [])"
  by (simp add: main_def raise_def)

lemma orderly_main: "orderly (main env argv)"
  by (cases "configure env argv") (auto simp: main_def intro: orderly_pipeline)

section \<open>Runs in the laboratory\<close>

lemmas run_defs =
  main_def configure_def parseArgs_def last_given_def List.map_filter_simps
  py_float_def pipeline_def process_def process_sample_def seq_def call_def lift_def
  dict_get_def with_paths_def with_cd_def cd_enter_def cd_init_def cd_exit_def
  os_chdir_def os_getcwd_def os_remove_def copyfile_def abspath_def is_abs_def outcome_def
  ret_def raise_def trimmedPath_of_def demultiplexedPath_of_def with_slash_def
  lab_env_def two_samples_def lab_world_def base_argv_def lab_registry_def Let_def

lemma lab_run:
  "fst (main (lab_env two_samples ''-'') base_argv lab_world) = Inr ()
   \<and> snd (snd (main (lab_env two_samples ''-'') base_argv lab_world)) =
     [(Sample_prep ''s.txt'' True, None),
      (CreateExperimentDirectories ''e'', None),
      (Demultiplex_fastq ''r.fastq.gz'' lab_registry ''e'', None),
      (Gbk2fna ''g.gbk'' ''genome'' ''e/genome_lookup/'', None),
      (Gbk2ftt ''g.gbk'' ''genome'' ''e/genome_lookup/'', None),
      (BowtieBuild ''genome'', None),
      (Trim_fastq ''e/raw_data/A.fastq.gz'' ''e/A_trimmed.fastq'' ''A'' 4, None),
      (BowtieMap ''genome'' ''../A_trimmed.fastq'' ''../A_bowtie.txt'', None),
      (Os_remove ''e/A_trimmed.fastq'', None),
      (MapSites ''e/A_bowtie.txt'', None),
      (MapGenes ''genome'' ''A'' 1 ''e'', None),
      (Trim_fastq ''e/raw_data/B.fastq.gz'' ''e/B_trimmed.fastq'' ''B'' 4, None),
      (BowtieMap ''genome'' ''../B_trimmed.fastq'' ''../B_bowtie.txt'', None),
      (Os_remove ''e/B_trimmed.fastq'', None),
      (MapSites ''e/B_bowtie.txt'', None),
      (MapGenes ''genome'' ''B'' 1 ''e'', None),
      (BuildGeneTable ''genome'' lab_registry [''A'', ''B''] ''e'', None)]"
  by (simp add: run_defs)

lemma no_disruption_flag:
  "\<forall>v. Opt_disruption v \<notin> set argv \<Longrightarrow> last_given get_disruption argv = None"
proof -
  assume a: "\<forall>v. Opt_disruption v \<notin> set argv"
  have "List.map_filter get_disruption argv = []" using a
  proof (induction argv)
    case Nil
    show ?case by (simp add: List.map_filter_simps)
  next
    case (Cons x xs)
    then show ?case by (cases x) (auto simp: List.map_filter_simps)
  qed
  then show ?thesis by (simp add: last_given_def)
qed

lemma configure_default:
  "\<forall>v. Opt_disruption v \<notin> set argv \<Longrightarrow> configure env argv = Inr c \<Longrightarrow> disruption c = 1"
  by (auto simp: configure_def parseArgs_def py_float_def no_disruption_flag
      split: sum.splits option.splits prod.splits)

section \<open>The default disruption fraction\<close>

text \<open>
  Claim C9. When no \<^verbatim>\<open>-d\<close> option is given, every call of \<^verbatim>\<open>mapGenes\<close> that a run
  makes, for whichever sample and whether or not the run completes, is given the
  disruption fraction \<open>1.0\<close>.
\<close>

theorem default_disruption:
  assumes "\<forall>v. Opt_disruption v \<notin> set argv"
    and "main env argv w = (r, w', l)"
    and "(MapGenes org sample d ex, out) \<in> set l"
  shows "d = 1"
proof (cases "configure env argv")
  case (Inl e)
  with assms(2,3) show ?thesis by (simp add: main_refused)
next
  case (Inr c)
  with assms(2) have "pipeline env c w = (r, w', l)" by (simp add: main_configured)
  with emits_only_pipeline [of env c] assms(3) have "issued_by c (MapGenes org sample d ex)"
    unfolding emits_only_def by fastforce
  with configure_default [OF assms(1) Inr] show ?thesis by simp
qed

theorem default_disruption_witness:
  "(\<forall>v. Opt_disruption v \<notin> set base_argv)
   \<and> (MapGenes ''genome'' ''B'' 1 ''e'', None)
       \<in> set (snd (snd (main (lab_env two_samples ''-'') base_argv lab_world)))
   \<and> (1::real) = 1"
proof -
  have a: "\<forall>v. Opt_disruption v \<notin> set base_argv" by (simp add: base_argv_def)
  have b: "main (lab_env two_samples ''-'') base_argv lab_world
           = (fst (main (lab_env two_samples ''-'') base_argv lab_world),
              fst (snd (main (lab_env two_samples ''-'') base_argv lab_world)),
              snd (snd (main (lab_env two_samples ''-'') base_argv lab_world)))" by simp
  have c: "(MapGenes ''genome'' ''B'' 1 ''e'', None)
       \<in> set (snd (snd (main (lab_env two_samples ''-'') base_argv lab_world)))"
    by (simp add: lab_run)
  from default_disruption [OF a b c] a c show ?thesis by simp
qed

section \<open>The order of a whole run\<close>

lemma main_decompose:
  assumes cfg: "configure env argv = Inr c"
    and sp: "sample_prep env (samples c) (barcode_qc c) w = (Inr reg0, w1)"
    and run: "main env argv w = (r, w', l)"
  obtains l2 where
    "seq (call (CreateExperimentDirectories (experiment' c))
            (createExperimentDirectories env (experiment' c))) (\<lambda>_.
     seq (lift (attach_paths (experiment' c) reg0)) (\<lambda>samplesDict.
     process env c samplesDict)) w1 = (r, w', l2)"
    "l = (Sample_prep (samples c) (barcode_qc c), None) # l2"
proof -
  from run cfg have "pipeline env c w = (r, w', l)" by (simp add: main_configured)
  then show thesis
    unfolding pipeline_def
  proof (cases rule: seqE)
    case (raised e)
    with sp show ?thesis by (auto elim!: callE)
  next
    case (returned x w2 l1 l2)
    from returned(1) sp have "x = reg0" "w2 = w1" "l1 = [(Sample_prep (samples c) (barcode_qc c), None)]"
      by (auto elim!: callE simp: outcome_def)
    with returned(2,3) that show ?thesis by simp
  qed
qed

lemma follows_after_prep:
  assumes att: "attach_paths (experiment' c) reg0 = Inr reg"
  shows "follows (seq (call (CreateExperimentDirectories (experiment' c))
            (createExperimentDirectories env (experiment' c))) (\<lambda>_.
     seq (lift (attach_paths (experiment' c) reg0)) (\<lambda>samplesDict.
     process env c samplesDict)))
     ([CreateExperimentDirectories (experiment' c)] @ [] @
      (staging_calls c reg @ genome_calls c @ concat (map (sample_calls c) reg) @ [table_call c reg]))
     (\<lambda>_. True)"
  apply (rule follows_seq [where P = "\<lambda>_. True"], rule follows_call)
  apply (rule follows_seq [where P = "\<lambda>x. x = reg"])
   apply (simp add: follows_def lift_def att)
  apply (simp add: follows_process)
  done

lemma main_schedule:
  assumes cfg: "configure env argv = Inr c"
    and sp: "sample_prep env (samples c) (barcode_qc c) w = (Inr reg0, w1)"
    and att: "attach_paths (experiment' c) reg0 = Inr reg"
    and run: "main env argv w = (r, w', l)"
  shows "prefix (map fst l) (schedule c reg)"
    and "r = Inr () \<Longrightarrow> map fst l = schedule c reg"
proof -
  from cfg sp run obtain l2 where
    rest: "seq (call (CreateExperimentDirectories (experiment' c))
            (createExperimentDirectories env (experiment' c))) (\<lambda>_.
     seq (lift (attach_paths (experiment' c) reg0)) (\<lambda>samplesDict.
     process env c samplesDict)) w1 = (r, w', l2)"
    and l: "l = (Sample_prep (samples c) (barcode_qc c), None) # l2"
    by (rule main_decompose)
  from follows_after_prep [OF att, of env] rest
  have "prefix (map fst l2) ([CreateExperimentDirectories (experiment' c)] @ [] @
      (staging_calls c reg @ genome_calls c @ concat (map (sample_calls c) reg) @ [table_call c reg]))"
    and "r = Inr () \<Longrightarrow> map fst l2 = ([CreateExperimentDirectories (experiment' c)] @ [] @
      (staging_calls c reg @ genome_calls c @ concat (map (sample_calls c) reg) @ [table_call c reg]))"
    unfolding follows_def by blast+
  with l show "prefix (map fst l) (schedule c reg)"
    and "r = Inr () \<Longrightarrow> map fst l = schedule c reg"
    by (simp_all add: schedule_def)
qed

lemma main_clean:
  assumes "main env argv w = (Inr x, w', l)"
  shows "\<forall>e\<in>set l. snd e = None"
  using orderly_main [of env argv] assms unfolding orderly_def by blast

lemma filter_table_schedule: "filter is_table (schedule c reg) = [table_call c reg]"
proof -
  have a: "filter is_table (staging_calls c reg) = []"
    by (auto simp: filter_empty_conv staging_calls_def)
  have b: "filter is_table (concat (map (sample_calls c) reg)) = []"
    by (auto simp: filter_empty_conv sample_calls_def)
  show ?thesis
    by (simp add: schedule_def genome_calls_def table_call_def a b del: filter_concat)
qed

text \<open>
  Claim C5. The calls of a run are made one after the other in the order of
  \<open>schedule\<close>: the set-up, then for each sample of the registry, in registry order,
  its trimming, alignment, removal of the trimmed file, site mapping and gene mapping,
  and after the last sample the table. A run that is cut short by an exception has
  made a prefix of these calls; a run that returns has made all of them, each one
  returned before the next was made, and the table was built exactly once, last.
\<close>

theorem one_sample_at_a_time:
  assumes "configure env argv = Inr c"
    and "sample_prep env (samples c) (barcode_qc c) w = (Inr reg0, w1)"
    and "attach_paths (experiment' c) reg0 = Inr reg"
    and "main env argv w = (r, w', l)"
  shows "prefix (map fst l)
           ([Sample_prep (samples c) (barcode_qc c), CreateExperimentDirectories (experiment' c)]
            @ staging_calls c reg @ genome_calls c
            @ concat (map (sample_calls c) reg) @ [table_call c reg])
         \<and> (r = Inr () \<longrightarrow>
              map fst l =
                [Sample_prep (samples c) (barcode_qc c), CreateExperimentDirectories (experiment' c)]
                @ staging_calls c reg @ genome_calls c
                @ concat (map (sample_calls c) reg) @ [table_call c reg]
              \<and> (\<forall>e \<in> set l. snd e = None)
              \<and> filter is_table (map fst l) = [table_call c reg])"
proof -
  note s = main_schedule [OF assms]
  have c: "r = Inr () \<Longrightarrow> \<forall>e \<in> set l. snd e = None"
    using main_clean assms(4) by blast
  have f: "r = Inr () \<Longrightarrow> filter is_table (map fst l) = [table_call c reg]"
    using s(2) by (simp add: filter_table_schedule)
  from s c f show ?thesis
    unfolding schedule_def by blast
qed

lemma lab_configure: "configure (lab_env reg bad) base_argv = Inr lab_config"
  by (simp add: configure_def parseArgs_def last_given_def List.map_filter_simps py_float_def
      base_argv_def lab_config_def lab_env_def)

lemma lab_sample_prep:
  "sample_prep (lab_env reg bad) (samples lab_config) (barcode_qc lab_config) lab_world
     = (Inr reg, lab_world)"
  by (simp add: lab_env_def)

lemma lab_attach: "attach_paths (experiment' lab_config) two_samples = Inr lab_registry"
  by (simp add: lab_config_def two_samples_def lab_registry_def dict_get_def with_paths_def
      trimmedPath_of_def demultiplexedPath_of_def)

lemma triple_eta: "x = (fst x, fst (snd x), snd (snd x))"
  by simp

theorem one_sample_at_a_time_witness:
  "configure (lab_env two_samples ''-'') base_argv = Inr lab_config
   \<and> sample_prep (lab_env two_samples ''-'') (samples lab_config) (barcode_qc lab_config) lab_world
       = (Inr two_samples, lab_world)
   \<and> attach_paths (experiment' lab_config) two_samples = Inr lab_registry
   \<and> fst (main (lab_env two_samples ''-'') base_argv lab_world) = Inr ()
   \<and> map fst (snd (snd (main (lab_env two_samples ''-'') base_argv lab_world))) =
       [Sample_prep (samples lab_config) (barcode_qc lab_config),
        CreateExperimentDirectories (experiment' lab_config)]
       @ staging_calls lab_config lab_registry @ genome_calls lab_config
       @ concat (map (sample_calls lab_config) lab_registry)
       @ [table_call lab_config lab_registry]
   \<and> filter is_table (map fst (snd (snd (main (lab_env two_samples ''-'') base_argv lab_world))))
       = [table_call lab_config lab_registry]"
proof -
  have run: "fst (main (lab_env two_samples ''-'') base_argv lab_world) = Inr ()"
    by (simp add: lab_run)
  note t = one_sample_at_a_time [OF lab_configure [of two_samples "''-''"]
          lab_sample_prep [of two_samples "''-''"] lab_attach triple_eta]
  from t run lab_configure [of two_samples "''-''"] lab_sample_prep [of two_samples "''-''"]
    lab_attach
  show ?thesis by blast
qed

section \<open>When the aligner fails\<close>

lemma table_last_seq:
  assumes "emits_only m (\<lambda>x. \<not> is_table x)" "\<And>x. table_last (f x)"
  shows "table_last (seq m f)"
  unfolding table_last_def
proof (intro allI impI)
  fix w r w' l
  assume "seq m f w = (r, w', l)"
  then show "\<forall>e\<in>set (butlast l). \<not> is_table (fst e)"
  proof (cases rule: seqE)
    case (raised e)
    with assms(1) have "\<forall>e\<in>set l. \<not> is_table (fst e)"
      unfolding emits_only_def by blast
    then show ?thesis by (auto dest: in_set_butlastD)
  next
    case (returned x w1 l1 l2)
    from assms(1) returned(1) have a: "\<forall>e\<in>set l1. \<not> is_table (fst e)"
      by (auto simp: emits_only_def)
    from assms(2) returned(2) have b: "\<forall>e\<in>set (butlast l2). \<not> is_table (fst e)"
      unfolding table_last_def by blast
    show ?thesis using a b returned(3)
      by (auto simp: butlast_append dest: in_set_butlastD)
  qed
qed

lemma table_last_call: "table_last (call c f)"
  by (auto simp: table_last_def elim!: callE)

lemma table_last_raise: "table_last (raise e)"
  by (simp add: table_last_def raise_def)

lemma no_table_process_sample: "emits_only (process_sample env c sample s) (\<lambda>x. \<not> is_table x)"
  unfolding process_sample_def Let_def by auto

lemma no_table_sample_loop: "emits_only (sample_loop env c reg gm) (\<lambda>x. \<not> is_table x)"
  by (induction reg arbitrary: gm) (auto intro: no_table_process_sample)

lemma table_last_process: "table_last (process env c reg)"
  unfolding process_def
  by (intro table_last_seq table_last_call)
     (auto intro!: no_table_sample_loop emits_only_copy_loop)

lemma table_last_main: "table_last (main env argv)"
proof (cases "configure env argv")
  case (Inl e)
  then show ?thesis by (simp add: main_def table_last_raise)
next
  case (Inr c)
  have "table_last (pipeline env c)"
    unfolding pipeline_def
    by (intro table_last_seq table_last_process) auto
  with Inr show ?thesis by (simp add: main_def)
qed

lemma raised_is_last:
  assumes "\<forall>e\<in>set (butlast l). snd e = None" "x \<in> set l" "snd x \<noteq> None"
  shows "last l = x"
proof -
  from assms(2) have ne: "l \<noteq> []" by auto
  then have "l = butlast l @ [last l]" by simp
  with assms(2) have "x \<in> set (butlast l) \<or> x = last l"
    by (metis Un_iff empty_iff empty_set insert_iff list.simps(15) set_append)
  with assms(1,3) show ?thesis by auto
qed

lemma lab_run_bad:
  "fst (main (lab_env two_samples ''A'') base_argv lab_world) = Inl (Failure ''bowtie'')
   \<and> snd (snd (main (lab_env two_samples ''A'') base_argv lab_world)) =
     [(Sample_prep ''s.txt'' True, None),
      (CreateExperimentDirectories ''e'', None),
      (Demultiplex_fastq ''r.fastq.gz'' lab_registry ''e'', None),
      (Gbk2fna ''g.gbk'' ''genome'' ''e/genome_lookup/'', None),
      (Gbk2ftt ''g.gbk'' ''genome'' ''e/genome_lookup/'', None),
      (BowtieBuild ''genome'', None),
      (Trim_fastq ''e/raw_data/A.fastq.gz'' ''e/A_trimmed.fastq'' ''A'' 4, None),
      (BowtieMap ''genome'' ''../A_trimmed.fastq'' ''../A_bowtie.txt'', Some (Failure ''bowtie''))]"
  by (simp add: run_defs)

text \<open>
  Claim C2 as stated fails: with two samples and an aligner that raises for the first,
  the run ends with that exception; the second sample is never trimmed or aligned and
  the table is never built.
\<close>

theorem aligner_failure_counterexample:
  "fst (main (lab_env two_samples ''A'') base_argv lab_world) = Inl (Failure ''bowtie'')
   \<and> map fst (snd (snd (main (lab_env two_samples ''A'') base_argv lab_world))) =
     [Sample_prep ''s.txt'' True,
      CreateExperimentDirectories ''e'',
      Demultiplex_fastq ''r.fastq.gz'' lab_registry ''e'',
      Gbk2fna ''g.gbk'' ''genome'' ''e/genome_lookup/'',
      Gbk2ftt ''g.gbk'' ''genome'' ''e/genome_lookup/'',
      BowtieBuild ''genome'',
      Trim_fastq ''e/raw_data/A.fastq.gz'' ''e/A_trimmed.fastq'' ''A'' 4,
      BowtieMap ''genome'' ''../A_trimmed.fastq'' ''../A_bowtie.txt'']
   \<and> filter is_table (map fst (snd (snd (main (lab_env two_samples ''A'') base_argv lab_world)))) = []"
  by (simp add: lab_run_bad)

text \<open>
  Claim C2 as amended. \<^verbatim>\<open>main\<close> has no exception handler: when a call of the aligner
  raises, for whichever sample, the run ends with an exception, the failed call is the
  last call of the run (no later sample is processed) and the table is not built.
\<close>

theorem aligner_failure_aborts:
  assumes "main env argv w = (r, w', l)"
    and "(BowtieMap org i out, Some e) \<in> set l"
  shows "(\<exists>e'. r = Inl e') \<and> last l = (BowtieMap org i out, Some e)
         \<and> filter is_table (map fst l) = []"
proof -
  from orderly_main [of env argv] assms(1)
  have o: "\<forall>e\<in>set (butlast l). snd e = None"
    and c: "(\<exists>x. r = Inr x) \<longrightarrow> (\<forall>e\<in>set l. snd e = None)"
    unfolding orderly_def by blast+
  from c assms(2) have r: "\<exists>e'. r = Inl e'" by (cases r) auto
  from raised_is_last [OF o assms(2)] have last: "last l = (BowtieMap org i out, Some e)" by simp
  from table_last_main [of env argv] assms(1)
  have t: "\<forall>e\<in>set (butlast l). \<not> is_table (fst e)" unfolding table_last_def by blast
  have "\<forall>x\<in>set l. \<not> is_table (fst x)"
  proof
    fix x assume x: "x \<in> set l"
    then have "l = butlast l @ [last l]" by (cases l rule: rev_cases) auto
    with x have "x \<in> set (butlast l) \<or> x = last l"
      by (metis Un_iff empty_iff empty_set insert_iff list.simps(15) set_append)
    with t last show "\<not> is_table (fst x)" by auto
  qed
  then have "filter is_table (map fst l) = []" by (auto simp: filter_empty_conv)
  with r last show ?thesis by blast
qed

theorem aligner_failure_aborts_witness:
  "(BowtieMap ''genome'' ''../A_trimmed.fastq'' ''../A_bowtie.txt'', Some (Failure ''bowtie''))
      \<in> set (snd (snd (main (lab_env two_samples ''A'') base_argv lab_world)))
   \<and> (\<exists>e'. fst (main (lab_env two_samples ''A'') base_argv lab_world) = Inl e')
   \<and> last (snd (snd (main (lab_env two_samples ''A'') base_argv lab_world)))
       = (BowtieMap ''genome'' ''../A_trimmed.fastq'' ''../A_bowtie.txt'', Some (Failure ''bowtie''))
   \<and> filter is_table (map fst (snd (snd (main (lab_env two_samples ''A'') base_argv lab_world)))) = []"
proof -
  have a: "(BowtieMap ''genome'' ''../A_trimmed.fastq'' ''../A_bowtie.txt'', Some (Failure ''bowtie''))
      \<in> set (snd (snd (main (lab_env two_samples ''A'') base_argv lab_world)))"
    by (simp add: lab_run_bad)
  from aligner_failure_aborts [OF triple_eta a] a show ?thesis by blast
qed

section \<open>A disruption fraction out of range\<close>

lemma lab_run_out_of_range:
  "fst (main (lab_env two_samples ''-'') (base_argv @ [Opt_disruption ''2.5'']) lab_world) = Inr ()
   \<and> map fst (snd (snd (main (lab_env two_samples ''-'') (base_argv @ [Opt_disruption ''2.5''])
                           lab_world))) =
     [Sample_prep ''s.txt'' True,
      CreateExperimentDirectories ''e'',
      Demultiplex_fastq ''r.fastq.gz'' lab_registry ''e'',
      Gbk2fna ''g.gbk'' ''genome'' ''e/genome_lookup/'',
      Gbk2ftt ''g.gbk'' ''genome'' ''e/genome_lookup/'',
      BowtieBuild ''genome'',
      Trim_fastq ''e/raw_data/A.fastq.gz'' ''e/A_trimmed.fastq'' ''A'' 4,
      BowtieMap ''genome'' ''../A_trimmed.fastq'' ''../A_bowtie.txt'',
      Os_remove ''e/A_trimmed.fastq'',
      MapSites ''e/A_bowtie.txt'',
      MapGenes ''genome'' ''A'' (5 / 2) ''e'',
      Trim_fastq ''e/raw_data/B.fastq.gz'' ''e/B_trimmed.fastq'' ''B'' 4,
      BowtieMap ''genome'' ''../B_trimmed.fastq'' ''../B_bowtie.txt'',
      Os_remove ''e/B_trimmed.fastq'',
      MapSites ''e/B_bowtie.txt'',
      MapGenes ''genome'' ''B'' (5 / 2) ''e'',
      BuildGeneTable ''genome'' lab_registry [''A'', ''B''] ''e'']"
  by (simp add: run_defs)

text \<open>
  Claim C1, evaluated on the script. With \<^verbatim>\<open>-d 2.5\<close> nothing is raised: the run
  returns, every stage is called for both samples, and \<^verbatim>\<open>mapGenes\<close> is given
  \<open>2.5\<close>, which is not in the interval from 0 to 1. The check announced by the comment
  on line 68 is not there.
\<close>

theorem disruption_unchecked:
  "fst (main (lab_env two_samples ''-'') (base_argv @ [Opt_disruption ''2.5'']) lab_world) = Inr ()
   \<and> MapGenes ''genome'' ''A'' (5 / 2) ''e''
        \<in> set (map fst (snd (snd (main (lab_env two_samples ''-'')
                                     (base_argv @ [Opt_disruption ''2.5'']) lab_world))))
   \<and> MapGenes ''genome'' ''B'' (5 / 2) ''e''
        \<in> set (map fst (snd (snd (main (lab_env two_samples ''-'')
                                     (base_argv @ [Opt_disruption ''2.5'']) lab_world))))
   \<and> \<not> ((0::real) \<le> 5 / 2 \<and> (5 / 2 :: real) \<le> 1)"
  by (simp add: lab_run_out_of_range)

section \<open>Barcodes\<close>

lemma configure_barcodes:
  assumes "configure env argv = Inr c"
  shows "nobarcodes c = (Opt_nobarcodes \<in> set argv)"
    and "barcode_qc c = (\<not> nobarcodes c)"
    and "barcode_length c = (if nobarcodes c then 0 else 4)"
  using assms
  by (auto simp: configure_def parseArgs_def split: sum.splits option.splits prod.splits)

lemma main_issued:
  assumes "configure env argv = Inr c" "main env argv w = (r, w', l)"
  shows "\<forall>x \<in> set (map fst l). issued_by c x"
proof -
  from assms have "pipeline env c w = (r, w', l)" by (simp add: main_configured)
  with emits_only_pipeline [of env c] show ?thesis
    unfolding emits_only_def by fastforce
qed

lemma filter_staging_schedule: "filter is_staging (schedule c reg) = staging_calls c reg"
proof -
  have a: "filter is_staging (staging_calls c reg) = staging_calls c reg"
    by (auto simp: filter_id_conv staging_calls_def)
  have b: "filter is_staging (concat (map (sample_calls c) reg)) = []"
    by (auto simp: filter_empty_conv sample_calls_def)
  show ?thesis
    by (simp add: schedule_def genome_calls_def table_call_def a b del: filter_concat)
qed

lemma lab_configure_nobarcodes:
  "configure (lab_env reg bad) (nobarcodes_argv rds) = Inr (nobarcodes_config rds)"
  by (simp add: configure_def parseArgs_def last_given_def List.map_filter_simps py_float_def
      nobarcodes_argv_def nobarcodes_config_def lab_env_def)

lemma trim_nothing: "trim 0 rds = rds"
proof -
  have "trim_read 0 = (\<lambda>rd. rd)" by (simp add: trim_read_def fun_eq_iff)
  then show ?thesis by (simp add: trim_def split_def)
qed

lemma prefix_then_rest:
  "barcode_prefix rd @ fst (snd (trim_read demultiplexer_barcode_length rd)) = fst (snd rd)"
  by (cases rd) (simp add: barcode_prefix_def trim_read_def)

lemma lab_run_copies:
  "fst (main (lab_env two_samples ''-'') (nobarcodes_argv ''r'') lab_world) = Inr ()
   \<and> filter is_staging
       (map fst (snd (snd (main (lab_env two_samples ''-'') (nobarcodes_argv ''r'') lab_world))))
     = [Copyfile ''r/A.fastq.gz'' ''e/raw_data/A.fastq.gz'',
        Copyfile ''r/B.fastq.gz'' ''e/raw_data/B.fastq.gz'']"
  by (simp add: run_defs nobarcodes_argv_def)

text \<open>
  Claim C4. Without \<^verbatim>\<open>--nobarcodes\<close> the sample list is loaded with barcode checking
  on, \<^verbatim>\<open>demultiplex_fastq\<close> is called once, no file is copied, every call of
  \<^verbatim>\<open>trim_fastq\<close> is handed the length 4, which is the length of the prefix the
  demultiplexer matches on: a read is the prefix the demultiplexer took followed by
  what the trimmer keeps. With \<^verbatim>\<open>--nobarcodes\<close> the sample list is loaded with barcode
  checking off, \<^verbatim>\<open>demultiplex_fastq\<close> is not called, the file
  \<^verbatim>\<open>reads/sample.fastq.gz\<close> of each sample is copied to its \<^verbatim>\<open>demultiplexedPath\<close>, in
  registry order, and every call of \<^verbatim>\<open>trim_fastq\<close> is handed the length 0, with which
  the trimmer gives back the reads as they are.
\<close>

theorem barcode_policy:
  assumes "configure env argv = Inr c"
    and "sample_prep env (samples c) (barcode_qc c) w = (Inr reg0, w1)"
    and "attach_paths (experiment' c) reg0 = Inr reg"
    and "main env argv w = (r, w', l)"
  shows "nobarcodes c = (Opt_nobarcodes \<in> set argv)
       \<and> barcode_qc c = (\<not> nobarcodes c)
       \<and> barcode_length c = (if nobarcodes c then 0 else 4)
       \<and> (\<forall>p qc. Sample_prep p qc \<in> set (map fst l) \<longrightarrow> qc = barcode_qc c)
       \<and> (\<forall>dp tp sample n. Trim_fastq dp tp sample n \<in> set (map fst l) \<longrightarrow> n = barcode_length c)
       \<and> (\<forall>rd d e. Demultiplex_fastq rd d e \<in> set (map fst l) \<longrightarrow> \<not> nobarcodes c)
       \<and> (\<forall>src dst. Copyfile src dst \<in> set (map fst l) \<longrightarrow> nobarcodes c)
       \<and> (r = Inr () \<longrightarrow>
            filter is_staging (map fst l) =
              (if nobarcodes c
               then map (\<lambda>(sample, s). Copyfile (with_slash (reads c) @ sample @ ''.fastq.gz'')
                                          (field s ''demultiplexedPath'')) reg
               else [Demultiplex_fastq (reads c) reg (experiment' c)]))
       \<and> (\<not> nobarcodes c \<longrightarrow>
            barcode_length c = demultiplexer_barcode_length
            \<and> (\<forall>rd. barcode_prefix rd @ fst (snd (trim_read (barcode_length c) rd)) = fst (snd rd)))
       \<and> (nobarcodes c \<longrightarrow> (\<forall>rds. trim (barcode_length c) rds = rds))"
proof -
  note b = configure_barcodes [OF assms(1)]
  note i = main_issued [OF assms(1,4)]
  have s: "r = Inr () \<Longrightarrow> filter is_staging (map fst l) = staging_calls c reg"
    using main_schedule(2) [OF assms] by (simp add: filter_staging_schedule)
  from i have 1: "\<forall>p qc. Sample_prep p qc \<in> set (map fst l) \<longrightarrow> qc = barcode_qc c" by fastforce
  from i have 2: "\<forall>dp tp sample n. Trim_fastq dp tp sample n \<in> set (map fst l) \<longrightarrow> n = barcode_length c"
    by fastforce
  from i have 3: "\<forall>rd d e. Demultiplex_fastq rd d e \<in> set (map fst l) \<longrightarrow> \<not> nobarcodes c" by fastforce
  from i have 4: "\<forall>src dst. Copyfile src dst \<in> set (map fst l) \<longrightarrow> nobarcodes c" by fastforce
  have 5: "\<not> nobarcodes c \<longrightarrow>
            barcode_length c = demultiplexer_barcode_length
            \<and> (\<forall>rd. barcode_prefix rd @ fst (snd (trim_read (barcode_length c) rd)) = fst (snd rd))"
  proof
    assume "\<not> nobarcodes c"
    with b(3) have e: "barcode_length c = demultiplexer_barcode_length"
      by (simp add: demultiplexer_barcode_length_def)
    show "barcode_length c = demultiplexer_barcode_length
            \<and> (\<forall>rd. barcode_prefix rd @ fst (snd (trim_read (barcode_length c) rd)) = fst (snd rd))"
      unfolding e by (simp add: prefix_then_rest)
  qed
  have 6: "nobarcodes c \<longrightarrow> (\<forall>rds. trim (barcode_length c) rds = rds)"
    using b(3) by (simp add: trim_nothing)
  from b 1 2 3 4 s 5 6 show ?thesis unfolding staging_calls_def by blast
qed


theorem barcode_policy_witness:
  "configure (lab_env two_samples ''-'') base_argv = Inr lab_config
   \<and> sample_prep (lab_env two_samples ''-'') (samples lab_config) (barcode_qc lab_config) lab_world
       = (Inr two_samples, lab_world)
   \<and> attach_paths (experiment' lab_config) two_samples = Inr lab_registry
   \<and> fst (main (lab_env two_samples ''-'') base_argv lab_world) = Inr ()
   \<and> \<not> nobarcodes lab_config \<and> barcode_qc lab_config \<and> barcode_length lab_config = 4
   \<and> filter is_staging (map fst (snd (snd (main (lab_env two_samples ''-'') base_argv lab_world))))
       = [Demultiplex_fastq (reads lab_config) lab_registry (experiment' lab_config)]
   \<and> barcode_prefix (''r1'', ''ACGTGGCA'', ''IIIIHHHH'')
       @ fst (snd (trim_read (barcode_length lab_config) (''r1'', ''ACGTGGCA'', ''IIIIHHHH'')))
       = ''ACGTGGCA''
   \<and> configure (lab_env two_samples ''-'') (nobarcodes_argv ''r'') = Inr (nobarcodes_config ''r'')
   \<and> sample_prep (lab_env two_samples ''-'') (samples (nobarcodes_config ''r''))
        (barcode_qc (nobarcodes_config ''r'')) lab_world = (Inr two_samples, lab_world)
   \<and> attach_paths (experiment' (nobarcodes_config ''r'')) two_samples = Inr lab_registry
   \<and> fst (main (lab_env two_samples ''-'') (nobarcodes_argv ''r'') lab_world) = Inr ()
   \<and> nobarcodes (nobarcodes_config ''r'') \<and> \<not> barcode_qc (nobarcodes_config ''r'')
   \<and> barcode_length (nobarcodes_config ''r'') = 0
   \<and> filter is_staging
        (map fst (snd (snd (main (lab_env two_samples ''-'') (nobarcodes_argv ''r'') lab_world))))
       = [Copyfile ''r/A.fastq.gz'' ''e/raw_data/A.fastq.gz'',
          Copyfile ''r/B.fastq.gz'' ''e/raw_data/B.fastq.gz'']
   \<and> trim (barcode_length (nobarcodes_config ''r'')) [(''r1'', ''ACGTGGCA'', ''IIIIHHHH'')]
       = [(''r1'', ''ACGTGGCA'', ''IIIIHHHH'')]"
proof -
  have run: "fst (main (lab_env two_samples ''-'') base_argv lab_world) = Inr ()"
    by (simp add: lab_run)
  have nb: "\<not> nobarcodes lab_config" by (simp add: lab_config_def)
  note t = barcode_policy [OF lab_configure [of two_samples "''-''"]
          lab_sample_prep [of two_samples "''-''"] lab_attach triple_eta]
  from t nb have qc: "barcode_qc lab_config" by blast
  from t nb have len: "barcode_length lab_config = 4" by simp
  from t run nb have st: "filter is_staging
      (map fst (snd (snd (main (lab_env two_samples ''-'') base_argv lab_world))))
       = [Demultiplex_fastq (reads lab_config) lab_registry (experiment' lab_config)]"
    by simp
  from t nb have "barcode_prefix (''r1'', ''ACGTGGCA'', ''IIIIHHHH'')
       @ fst (snd (trim_read (barcode_length lab_config) (''r1'', ''ACGTGGCA'', ''IIIIHHHH'')))
       = fst (snd (''r1'', ''ACGTGGCA'', ''IIIIHHHH''))"
    by blast
  then have pr: "barcode_prefix (''r1'', ''ACGTGGCA'', ''IIIIHHHH'')
       @ fst (snd (trim_read (barcode_length lab_config) (''r1'', ''ACGTGGCA'', ''IIIIHHHH'')))
       = ''ACGTGGCA''"
    by simp
  have a: "configure (lab_env two_samples ''-'') (nobarcodes_argv ''r'') = Inr (nobarcodes_config ''r'')"
    by (rule lab_configure_nobarcodes)
  have c: "sample_prep (lab_env two_samples ''-'') (samples (nobarcodes_config ''r''))
        (barcode_qc (nobarcodes_config ''r'')) lab_world = (Inr two_samples, lab_world)"
    by (simp add: lab_env_def)
  have e: "attach_paths (experiment' (nobarcodes_config ''r'')) two_samples = Inr lab_registry"
    by (simp add: nobarcodes_config_def two_samples_def lab_registry_def dict_get_def
        with_paths_def trimmedPath_of_def demultiplexedPath_of_def)
  have nb': "nobarcodes (nobarcodes_config ''r'')" by (simp add: nobarcodes_config_def)
  note run' = lab_run_copies [THEN conjunct1]
  note st' = lab_run_copies [THEN conjunct2]
  note t' = barcode_policy [OF a c e triple_eta]
  from t' nb' have qc': "\<not> barcode_qc (nobarcodes_config ''r'')" by blast
  from t' nb' have len': "barcode_length (nobarcodes_config ''r'') = 0" by simp
  from t' nb' have tr: "trim (barcode_length (nobarcodes_config ''r''))
        [(''r1'', ''ACGTGGCA'', ''IIIIHHHH'')] = [(''r1'', ''ACGTGGCA'', ''IIIIHHHH'')]"
    by blast
  from lab_configure [of two_samples "''-''"] lab_sample_prep [of two_samples "''-''"] lab_attach
    run nb qc len st pr a c e run' nb' qc' len' st' tr
  show ?thesis by blast
qed

section \<open>Reads given as a directory\<close>

lemma copyfile_in_schedule:
  assumes "Copyfile src dst \<in> set (schedule c reg)"
  shows "nobarcodes c \<and> (\<exists>(sample, s) \<in> set reg.
            src = with_slash (reads c) @ sample @ ''.fastq.gz''
            \<and> dst = field s ''demultiplexedPath'')"
  using assms
  by (auto simp: schedule_def staging_calls_def genome_calls_def table_call_def sample_calls_def
      split: if_splits)













section \<open>The registry and the feature table\<close>

lemma schedule_split:
  "schedule c reg = setup_calls c reg @ (concat (map (sample_calls c) reg) @ [table_call c reg])"
  by (simp add: schedule_def setup_calls_def)

lemma setup_not_per_sample: "x \<in> set (setup_calls c reg) \<Longrightarrow> \<not> is_per_sample x"
  by (auto simp: setup_calls_def staging_calls_def genome_calls_def split: if_splits)

lemma setup_sample_prep:
  "filter is_sample_prep (setup_calls c reg) = [Sample_prep (samples c) (barcode_qc c)]"
proof -
  have "filter is_sample_prep (staging_calls c reg) = []"
    by (auto simp: filter_empty_conv staging_calls_def)
  then show ?thesis by (simp add: setup_calls_def genome_calls_def)
qed

lemma setup_gbk2ftt:
  "filter is_gbk2ftt (setup_calls c reg) = [Gbk2ftt (gbkfile c) (organism c) (genomeDir c)]"
proof -
  have "filter is_gbk2ftt (staging_calls c reg) = []"
    by (auto simp: filter_empty_conv staging_calls_def)
  then show ?thesis by (simp add: setup_calls_def genome_calls_def)
qed

lemma loop_part_builds_nothing:
  "filter is_sample_prep (concat (map (sample_calls c) reg) @ [table_call c reg]) = []"
  "filter is_gbk2ftt (concat (map (sample_calls c) reg) @ [table_call c reg]) = []"
  by (auto simp: filter_empty_conv sample_calls_def table_call_def)

lemma beyond_setup:
  assumes p: "prefix (pre @ x # post) (setup @ rest)" and x: "x \<notin> set setup"
  obtains more where "pre = setup @ more" "prefix more rest"
proof -
  from p have "prefix (pre @ [x]) (setup @ rest)"
    by (metis append.assoc append_Cons append_Nil prefix_order.dual_order.trans prefixI)
  then consider "prefix (pre @ [x]) setup" | us where "pre @ [x] = setup @ us" "prefix us rest"
    by (auto simp: prefix_append)
  then show thesis
  proof cases
    case 1
    then have "x \<in> set setup" by (auto dest: set_mono_prefix)
    with x show ?thesis by simp
  next
    case 2
    show ?thesis
    proof (cases us rule: rev_cases)
      case Nil
      with 2 x show ?thesis by (metis append_Nil2 in_set_conv_decomp)
    next
      case (snoc more y)
      with 2 have "pre = setup @ more" by simp
      moreover from 2 snoc have "prefix more rest"
        by (metis prefix_order.dual_order.trans prefixI)
      ultimately show ?thesis by (rule that)
    qed
  qed
qed

lemma filter_nil_prefix: "prefix xs ys \<Longrightarrow> filter P ys = [] \<Longrightarrow> filter P xs = []"
  by (auto simp: filter_empty_conv dest: set_mono_prefix)

text \<open>
  Claim C6. In every run that gets as far as having a registry: \<^verbatim>\<open>sample_prep\<close> is
  called exactly once and \<^verbatim>\<open>gbk2ftt\<close> at most once; before any call made for a
  sample inside the loop, each of the two has been called exactly once; and the
  registry handed to \<^verbatim>\<open>demultiplex_fastq\<close> before the loop and to
  \<^verbatim>\<open>buildGeneTable\<close> after it is the same value \<open>reg\<close>, the one the loop reads.
\<close>

theorem built_once_before_the_loop:
  assumes "configure env argv = Inr c"
    and "sample_prep env (samples c) (barcode_qc c) w = (Inr reg0, w1)"
    and "attach_paths (experiment' c) reg0 = Inr reg"
    and "main env argv w = (r, w', l)"
  shows "length (filter is_sample_prep (map fst l)) = 1
       \<and> length (filter is_gbk2ftt (map fst l)) \<le> 1
       \<and> (\<forall>pre x post. map fst l = pre @ x # post \<and> is_per_sample x \<longrightarrow>
             filter is_sample_prep pre = [Sample_prep (samples c) (barcode_qc c)]
             \<and> filter is_gbk2ftt pre = [Gbk2ftt (gbkfile c) (organism c) (genomeDir c)])
       \<and> (\<forall>rd d e. Demultiplex_fastq rd d e \<in> set (map fst l) \<longrightarrow> d = reg)
       \<and> (\<forall>org d ks e. BuildGeneTable org d ks e \<in> set (map fst l) \<longrightarrow> d = reg)"
proof -
  note p = main_schedule(1) [OF assms]
  from assms(1,2,4) obtain l2 where l: "l = (Sample_prep (samples c) (barcode_qc c), None) # l2"
    by (rule main_decompose)
  have fs: "filter is_sample_prep (schedule c reg) = [Sample_prep (samples c) (barcode_qc c)]"
    unfolding schedule_split
    using filter_append [of is_sample_prep "setup_calls c reg"
            "concat (map (sample_calls c) reg) @ [table_call c reg]"]
    by (simp only: setup_sample_prep loop_part_builds_nothing append_Nil2)
  have fg: "filter is_gbk2ftt (schedule c reg) = [Gbk2ftt (gbkfile c) (organism c) (genomeDir c)]"
    unfolding schedule_split
    using filter_append [of is_gbk2ftt "setup_calls c reg"
            "concat (map (sample_calls c) reg) @ [table_call c reg]"]
    by (simp only: setup_gbk2ftt loop_part_builds_nothing append_Nil2)
  from filter_mono_prefix [OF p, of is_sample_prep] fs
  have "length (filter is_sample_prep (map fst l)) \<le> 1" by (auto dest: prefix_length_le)
  moreover from l have "1 \<le> length (filter is_sample_prep (map fst l))" by simp
  ultimately have 1: "length (filter is_sample_prep (map fst l)) = 1" by simp
  from filter_mono_prefix [OF p, of is_gbk2ftt] fg
  have 2: "length (filter is_gbk2ftt (map fst l)) \<le> 1" by (auto dest: prefix_length_le)
  have 3: "\<forall>pre x post. map fst l = pre @ x # post \<and> is_per_sample x \<longrightarrow>
             filter is_sample_prep pre = [Sample_prep (samples c) (barcode_qc c)]
             \<and> filter is_gbk2ftt pre = [Gbk2ftt (gbkfile c) (organism c) (genomeDir c)]"
  proof (intro allI impI)
    fix pre x post
    assume a: "map fst l = pre @ x # post \<and> is_per_sample x"
    with p have "prefix (pre @ x # post)
        (setup_calls c reg @ (concat (map (sample_calls c) reg) @ [table_call c reg]))"
      by (simp add: schedule_split)
    moreover from a have "x \<notin> set (setup_calls c reg)" by (auto dest: setup_not_per_sample)
    ultimately obtain more where m: "pre = setup_calls c reg @ more"
      "prefix more (concat (map (sample_calls c) reg) @ [table_call c reg])"
      by (rule beyond_setup)
    have "filter is_sample_prep more = []"
      by (rule filter_nil_prefix [OF m(2) loop_part_builds_nothing(1)])
    moreover have "filter is_gbk2ftt more = []"
      by (rule filter_nil_prefix [OF m(2) loop_part_builds_nothing(2)])
    ultimately show "filter is_sample_prep pre = [Sample_prep (samples c) (barcode_qc c)]
             \<and> filter is_gbk2ftt pre = [Gbk2ftt (gbkfile c) (organism c) (genomeDir c)]"
      by (simp add: m(1) setup_sample_prep setup_gbk2ftt)
  qed
  from p have sub: "set (map fst l) \<subseteq> set (schedule c reg)" by (rule set_mono_prefix)
  have 4: "\<forall>rd d e. Demultiplex_fastq rd d e \<in> set (map fst l) \<longrightarrow> d = reg"
  proof (intro allI impI)
    fix rd d e assume "Demultiplex_fastq rd d e \<in> set (map fst l)"
    with sub have "Demultiplex_fastq rd d e \<in> set (schedule c reg)" by blast
    then show "d = reg"
      by (auto simp: schedule_def staging_calls_def genome_calls_def table_call_def
          sample_calls_def split: if_splits)
  qed
  have 5: "\<forall>org d ks e. BuildGeneTable org d ks e \<in> set (map fst l) \<longrightarrow> d = reg"
  proof (intro allI impI)
    fix org d ks e assume "BuildGeneTable org d ks e \<in> set (map fst l)"
    with sub have "BuildGeneTable org d ks e \<in> set (schedule c reg)" by blast
    then show "d = reg"
      by (auto simp: schedule_def staging_calls_def genome_calls_def table_call_def
          sample_calls_def split: if_splits)
  qed
  from 1 2 3 4 5 show ?thesis by blast
qed

theorem built_once_before_the_loop_witness:
  "configure (lab_env two_samples ''-'') base_argv = Inr lab_config
   \<and> sample_prep (lab_env two_samples ''-'') (samples lab_config) (barcode_qc lab_config) lab_world
       = (Inr two_samples, lab_world)
   \<and> attach_paths (experiment' lab_config) two_samples = Inr lab_registry
   \<and> length (filter is_sample_prep
        (map fst (snd (snd (main (lab_env two_samples ''-'') base_argv lab_world))))) = 1
   \<and> BuildGeneTable ''genome'' lab_registry [''A'', ''B''] ''e''
        \<in> set (map fst (snd (snd (main (lab_env two_samples ''-'') base_argv lab_world))))
   \<and> length (filter is_gbk2ftt
        (map fst (snd (snd (main (lab_env two_samples ''-'') base_argv lab_world))))) \<le> 1"
proof -
  have t: "BuildGeneTable ''genome'' lab_registry [''A'', ''B''] ''e''
        \<in> set (map fst (snd (snd (main (lab_env two_samples ''-'') base_argv lab_world))))"
    by (simp add: lab_run)
  from built_once_before_the_loop [OF lab_configure [of two_samples "''-''"]
          lab_sample_prep [of two_samples "''-''"] lab_attach triple_eta]
    t lab_configure [of two_samples "''-''"] lab_sample_prep [of two_samples "''-''"] lab_attach
  show ?thesis by blast
qed

section \<open>Loading the sample list\<close>

lemma attach_paths_entries:
  "attach_paths exper reg0 = Inr reg \<Longrightarrow> list_all2 (paths_attached exper) reg0 reg"
proof (induction reg0 arbitrary: reg)
  case Nil
  then show ?case by simp
next
  case (Cons a reg0)
  obtain sample s where a: "a = (sample, s)" by (cases a)
  from Cons.prems a obtain n rest' where
    n: "map_of s ''name'' = Some n"
    and rest: "attach_paths exper reg0 = Inr rest'"
    and reg: "reg = (sample, with_paths exper n s) # rest'"
    by (auto simp: dict_get_def split: option.splits sum.splits)
  have "paths_attached exper (sample, s) (sample, with_paths exper n s)"
    by (simp add: paths_attached_def with_paths_def n AList.update_conv')
  with Cons.IH [OF rest] show ?case by (simp add: a reg)
qed

lemma pipeline_after_load:
  assumes "sample_prep env = load parse"
    and "parse w (samples c) (barcode_qc c) = Inr reg0"
  shows "pipeline env c w =
      (case createExperimentDirectories env (experiment' c) w of
         (Inl e, w1) \<Rightarrow>
           (Inl e, w1, [(Sample_prep (samples c) (barcode_qc c), None),
                        (CreateExperimentDirectories (experiment' c), Some e)])
       | (Inr u, w1) \<Rightarrow>
           (case attach_paths (experiment' c) reg0 of
              Inl e \<Rightarrow>
                (Inl e, w1, [(Sample_prep (samples c) (barcode_qc c), None),
                             (CreateExperimentDirectories (experiment' c), None)])
            | Inr reg \<Rightarrow>
                (case process env c reg w1 of
                   (r, w2, l2) \<Rightarrow>
                     (r, w2, (Sample_prep (samples c) (barcode_qc c), None)
                             # (CreateExperimentDirectories (experiment' c), None) # l2))))"
  using assms
  by (simp add: pipeline_def seq_def call_def lift_def load_def outcome_def
      split: prod.splits sum.splits)

text \<open>
  Claim C7. With \<^verbatim>\<open>sample_prep\<close> as the specification describes it, a run that has
  loaded the registry \<open>reg0\<close> continues in the world it started in: the experiment
  directories are created there, and only when that call has returned are the two paths
  of every sample set, from the experiment and the sample's name (lines 92 to 100);
  the rest of the run gets the registry with the paths. When the directories cannot be
  created, the run ends with that exception and no path has been attached.
\<close>

theorem paths_attached_after_bootstrap:
  assumes "sample_prep env = load parse"
    and "configure env argv = Inr c"
    and "parse w (samples c) (barcode_qc c) = Inr reg0"
  shows "main env argv w =
      (case createExperimentDirectories env (experiment' c) w of
         (Inl e, w1) \<Rightarrow>
           (Inl e, w1, [(Sample_prep (samples c) (barcode_qc c), None),
                        (CreateExperimentDirectories (experiment' c), Some e)])
       | (Inr u, w1) \<Rightarrow>
           (case attach_paths (experiment' c) reg0 of
              Inl e \<Rightarrow>
                (Inl e, w1, [(Sample_prep (samples c) (barcode_qc c), None),
                             (CreateExperimentDirectories (experiment' c), None)])
            | Inr reg \<Rightarrow>
                (case process env c reg w1 of
                   (r, w2, l2) \<Rightarrow>
                     (r, w2, (Sample_prep (samples c) (barcode_qc c), None)
                             # (CreateExperimentDirectories (experiment' c), None) # l2))))
     \<and> (\<forall>reg. attach_paths (experiment' c) reg0 = Inr reg \<longrightarrow>
            list_all2 (paths_attached (experiment' c)) reg0 reg)"
  using assms pipeline_after_load [OF assms(1,3)]
  by (simp add: main_configured attach_paths_entries)

lemma lab_loads: "sample_prep (lab_env reg bad) = load (\<lambda>w p qc. Inr reg)"
  by (simp add: lab_env_def load_def fun_eq_iff)

lemma lab_bootstrap:
  "createExperimentDirectories (lab_env reg bad) (experiment' lab_config) lab_world
     = (Inr (), lab_world)"
  by (simp add: lab_env_def lab_config_def lab_world_def abspath_def is_abs_def insert_absorb)

theorem paths_attached_after_bootstrap_witness:
  "sample_prep (lab_env two_samples ''-'') = load (\<lambda>w p qc. Inr two_samples)
   \<and> configure (lab_env two_samples ''-'') base_argv = Inr lab_config
   \<and> attach_paths (experiment' lab_config) two_samples = Inr lab_registry
   \<and> main (lab_env two_samples ''-'') base_argv lab_world =
       (case process (lab_env two_samples ''-'') lab_config lab_registry lab_world of
          (r, w2, l2) \<Rightarrow>
            (r, w2, (Sample_prep (samples lab_config) (barcode_qc lab_config), None)
                    # (CreateExperimentDirectories (experiment' lab_config), None) # l2))
   \<and> list_all2 (paths_attached (experiment' lab_config)) two_samples lab_registry"
proof -
  note t = paths_attached_after_bootstrap [OF lab_loads [of two_samples "''-''"]
      lab_configure [of two_samples "''-''"] refl, of lab_world]
  from t have m: "main (lab_env two_samples ''-'') base_argv lab_world =
       (case process (lab_env two_samples ''-'') lab_config lab_registry lab_world of
          (r, w2, l2) \<Rightarrow>
            (r, w2, (Sample_prep (samples lab_config) (barcode_qc lab_config), None)
                    # (CreateExperimentDirectories (experiment' lab_config), None) # l2))"
    by (simp only: lab_bootstrap lab_attach prod.case sum.case)
  from t lab_attach
  have p: "list_all2 (paths_attached (experiment' lab_config)) two_samples lab_registry"
    by blast
  from m p lab_loads [of two_samples "''-''"] lab_configure [of two_samples "''-''"] lab_attach
  show ?thesis by blast
qed

section \<open>The trimmed files\<close>

lemma la_trim:
  "leaves_alone env T \<Longrightarrow> trim_fastq env dp tp sample n w = (r, w') \<Longrightarrow>
     cwd w' = cwd w \<and> files w' \<inter> T \<subseteq> insert (abspath (cwd w) tp) (files w)"
  unfolding leaves_alone_def by metis

lemma la_map:
  "leaves_alone env T \<Longrightarrow> bowtieMap env org i out w = (r, w') \<Longrightarrow> files w' \<inter> T \<subseteq> files w"
  unfolding leaves_alone_def by metis

lemma la_sites:
  "leaves_alone env T \<Longrightarrow> mapSites env p w = (r, w') \<Longrightarrow>
     cwd w' = cwd w \<and> files w' \<inter> T \<subseteq> files w"
  unfolding leaves_alone_def by metis

lemma la_genes:
  "leaves_alone env T \<Longrightarrow> mapGenes env org sample d e w = (r, w') \<Longrightarrow>
     cwd w' = cwd w \<and> files w' \<inter> T \<subseteq> files w"
  unfolding leaves_alone_def by metis

lemma with_cd_world:
  assumes run: "with_cd env p body w = (r, w', l)" and ab: "is_abs (cwd w)"
  shows "(w' = w \<and> (\<exists>e. r = Inl e))
       \<or> (\<exists>w1 w2 rb. files w1 = files w \<and> body w1 = (rb, w2, l) \<and> files w' = files w2
             \<and> ((\<exists>x. r = Inr x) \<longrightarrow> cwd w' = cwd w))"
proof (cases "abspath (cwd w) (expanduser env p) \<in> dirs w")
  case False
  with run show ?thesis
    by (auto simp: with_cd_def cd_enter_def cd_init_def os_chdir_def os_getcwd_def Let_def)
next
  case True
  define w1 where "w1 = w\<lparr>cwd := abspath (cwd w) (expanduser env p)\<rparr>"
  obtain rb w2 lb where b: "body w1 = (rb, w2, lb)" by (cases "body w1")
  have f: "files w1 = files w" by (simp add: w1_def)
  show ?thesis
  proof (cases "cwd w \<in> dirs w2")
    case False
    with run True b have "l = lb" "w' = w2"
      by (auto simp: with_cd_def cd_enter_def cd_exit_def cd_init_def os_chdir_def os_getcwd_def
          abspath_abs [OF ab] Let_def w1_def)
    moreover from run True b False have "\<exists>e. r = Inl e"
      by (auto simp: with_cd_def cd_enter_def cd_exit_def cd_init_def os_chdir_def os_getcwd_def
          abspath_abs [OF ab] Let_def w1_def)
    ultimately show ?thesis using b f by auto
  next
    case in_dirs: True
    with run True b have "l = lb" "files w' = files w2" "cwd w' = cwd w"
      by (auto simp: with_cd_def cd_enter_def cd_exit_def cd_init_def os_chdir_def os_getcwd_def
          abspath_abs [OF ab] Let_def w1_def)
    then show ?thesis using b f by auto
  qed
qed

lemma with_cd_worldE:
  assumes "with_cd env p body w = (r, w', l)" and "is_abs (cwd w)"
  obtains (no_entry) e where "w' = w" "r = Inl e"
  | (ran) w1 w2 rb where "files w1 = files w" "body w1 = (rb, w2, l)" "files w' = files w2"
      "(\<exists>x. r = Inr x) \<longrightarrow> cwd w' = cwd w"
  using with_cd_world [OF assms] by blast

lemma os_removeE:
  assumes "os_remove p w = (r, w')"
  obtains (gone) "r = Inr ()" "cwd w' = cwd w" "files w' = files w - {abspath (cwd w) p}"
  | (missing) e where "r = Inl e" "w' = w"
  using assms by (auto simp: os_remove_def split: if_splits)

lemma aligner_frame:
  assumes la: "leaves_alone env T" and ab: "is_abs (cwd w)"
    and run: "with_cd env p (call cl (bowtieMap env org i out)) w = (r, w', l)"
  shows "files w' \<inter> T \<subseteq> files w" and "(\<exists>x. r = Inr x) \<longrightarrow> cwd w' = cwd w"
proof -
  from run ab have "files w' \<inter> T \<subseteq> files w \<and> ((\<exists>x. r = Inr x) \<longrightarrow> cwd w' = cwd w)"
  proof (cases rule: with_cd_worldE)
    case (no_entry e)
    then show ?thesis by auto
  next
    case (ran w1 w2 rb)
    from ran(2) have "bowtieMap env org i out w1 = (rb, w2)" by (rule callE)
    from la_map [OF la this] ran(1,3,4) show ?thesis by auto
  qed
  then show "files w' \<inter> T \<subseteq> files w" and "(\<exists>x. r = Inr x) \<longrightarrow> cwd w' = cwd w" by blast+
qed

lemma process_sample_frame:
  assumes la: "leaves_alone env T" and ab: "is_abs (cwd w)"
    and run: "process_sample env c k s w = (r, w', l)"
  shows "files w' \<inter> T \<subseteq> insert (trimmed_at (cwd w) (k, s)) (files w)
       \<and> ((\<exists>g. r = Inr g) \<longrightarrow>
            cwd w' = cwd w
            \<and> (trimmed_at (cwd w) (k, s) \<in> T \<longrightarrow> trimmed_at (cwd w) (k, s) \<notin> files w'))"
  using run unfolding process_sample_def Let_def
proof (cases rule: seqE)
  case (raised e)
  then show ?thesis by (auto simp: lift_def)
next
  case dp: (returned dp w1 l1 l2)
  from dp(1) have w1: "w1 = w" by (simp add: lift_def)
  from dp(2) show ?thesis
  proof (cases rule: seqE)
    case (raised e)
    then show ?thesis by (auto simp: lift_def w1)
  next
    case tp: (returned tp w2 l3 l4)
    from tp(1) have w2: "w2 = w" and p: "trimmed_at (cwd w) (k, s) = abspath (cwd w) tp"
      by (auto simp: lift_def w1 dict_get_def trimmed_at_def field_def split: option.splits)
    from tp(2) show ?thesis
    proof (cases rule: seqE)
      case (raised e)
      from raised(1) have "trim_fastq env dp tp k (barcode_length c) w2 = (Inl e, w')"
        by (rule callE)
      from la_trim [OF la this] raised(2) show ?thesis by (simp add: w2 p)
    next
      case trim: (returned u3 w3 l5 l6)
      from trim(1) have "trim_fastq env dp tp k (barcode_length c) w2 = (Inr u3, w3)"
        by (rule callE)
      from la_trim [OF la this]
      have c3: "cwd w3 = cwd w" and f3: "files w3 \<inter> T \<subseteq> insert (abspath (cwd w) tp) (files w)"
        by (simp_all add: w2)
      from ab c3 have ab3: "is_abs (cwd w3)" by simp
      from trim(2) show ?thesis
      proof (cases rule: seqE)
        case (raised e)
        from aligner_frame(1) [OF la ab3 raised(1)] f3 raised(2) show ?thesis
          by (auto simp: p)
      next
        case al: (returned u4 w4 l7 l8)
        from aligner_frame [OF la ab3 al(1)] c3
        have c4: "cwd w4 = cwd w" and f4: "files w4 \<inter> T \<subseteq> files w3" by auto
        from al(2) show ?thesis
        proof (cases rule: seqE)
          case (raised e)
          from raised(1) have "os_remove tp w4 = (Inl e, w')" by (rule callE)
          then have "w' = w4" by (cases rule: os_removeE) auto
          with f4 f3 raised(2) show ?thesis by (auto simp: p)
        next
          case rm: (returned u5 w5 l9 l10)
          from rm(1) have "os_remove tp w4 = (Inr u5, w5)" by (rule callE)
          then have c5: "cwd w5 = cwd w" and f5: "files w5 = files w4 - {abspath (cwd w) tp}"
            by (cases rule: os_removeE; simp add: c4)+
          from rm(2) show ?thesis
          proof (cases rule: seqE)
            case (raised e)
            from raised(1) have "mapSites env (experiment' c @ ''/'' @ k @ ''_bowtie.txt'') w5
                = (Inl e, w')"
              by (rule callE)
            from la_sites [OF la this] f5 f4 f3 raised(2) show ?thesis by (auto simp: p)
          next
            case ms: (returned u6 w6 l11 l12)
            from ms(1) have "mapSites env (experiment' c @ ''/'' @ k @ ''_bowtie.txt'') w5
                = (Inr u6, w6)"
              by (rule callE)
            from la_sites [OF la this] c5
            have c6: "cwd w6 = cwd w" and f6: "files w6 \<inter> T \<subseteq> files w5" by auto
            from ms(2) have "mapGenes env (organism c) k (disruption c) (experiment' c) w6
                = (r, w')"
              by (rule callE)
            from la_genes [OF la this] c6
            have c7: "cwd w' = cwd w" and f7: "files w' \<inter> T \<subseteq> files w6" by auto
            from c7 f7 f6 f5 f4 f3 show ?thesis unfolding p by blast
          qed
        qed
      qed
    qed
  qed
qed


lemma sample_loop_frame:
  assumes la: "leaves_alone env T" and ab: "is_abs d"
  shows "cwd w = d \<Longrightarrow> distinct (map (trimmed_at d) reg) \<Longrightarrow> set (map (trimmed_at d) reg) \<subseteq> T
     \<Longrightarrow> sample_loop env c reg gm w = (Inr gm', w', l)
     \<Longrightarrow> cwd w' = d \<and> files w' \<inter> T \<subseteq> files w - set (map (trimmed_at d) reg)"
proof (induction reg arbitrary: gm w l)
  case Nil
  then show ?case by (auto simp: ret_def)
next
  case (Cons a reg)
  obtain k s where a: "a = (k, s)" by (cases a)
  from Cons.prems(4) have "seq (process_sample env c k s)
      (\<lambda>g. sample_loop env c reg (AList.update k g gm)) w = (Inr gm', w', l)"
    by (simp add: a)
  then show ?case
  proof (cases rule: seqE)
    case (raised e)
    then show ?thesis by simp
  next
    case (returned g w1 l1 l2)
    from Cons.prems(1) ab have abw: "is_abs (cwd w)" by simp
    from Cons.prems(3) have inT: "trimmed_at (cwd w) (k, s) \<in> T"
      by (simp add: a Cons.prems(1))
    from process_sample_frame [OF la abw returned(1)] inT Cons.prems(1)
    have f1: "files w1 \<inter> T \<subseteq> insert (trimmed_at d (k, s)) (files w)"
      and c1: "cwd w1 = d" and gone: "trimmed_at d (k, s) \<notin> files w1"
      by auto
    from Cons.prems(2,3) have "distinct (map (trimmed_at d) reg)"
      "set (map (trimmed_at d) reg) \<subseteq> T" by simp_all
    from Cons.IH [OF c1 this returned(2)]
    have c': "cwd w' = d" and f': "files w' \<inter> T \<subseteq> files w1 - set (map (trimmed_at d) reg)"
      by simp_all
    from f' f1 gone have "files w' \<inter> T \<subseteq> files w - set (map (trimmed_at d) (a # reg))"
      unfolding a by auto
    with c' show ?thesis by simp
  qed
qed

lemma seq_assoc: "seq (seq m f) g = seq m (\<lambda>x. seq (f x) g)"
  by (auto simp: seq_def fun_eq_iff split: prod.splits sum.splits)

lemma seq_ret: "seq (ret x) f = f x"
  by (simp add: seq_def ret_def fun_eq_iff split: prod.splits)

lemma sample_loop_append:
  "sample_loop env c (pre @ rest) gm
     = seq (sample_loop env c pre gm) (\<lambda>gm1. sample_loop env c rest gm1)"
proof (induction pre arbitrary: gm)
  case Nil
  show ?case by (simp add: seq_ret)
next
  case (Cons a pre)
  obtain k s where a: "a = (k, s)" by (cases a)
  show ?case by (simp add: a Cons.IH seq_assoc)
qed

lemma raised_in_sample:
  assumes "sample_loop env c pre gm w = (Inr gm1, w1, l1)"
    and "process_sample env c k s w1 = (Inl e, w', l2)"
  shows "sample_loop env c (pre @ (k, s) # post) gm w = (Inl e, w', l1 @ l2)"
  using assms by (simp add: sample_loop_append seq_def)


lemma raise_has_sample:
  "sample_loop env c reg gm w = (Inl e, w', l) \<Longrightarrow>
     \<exists>pre k s post gm1 w1 l1 l2. reg = pre @ (k, s) # post
        \<and> sample_loop env c pre gm w = (Inr gm1, w1, l1)
        \<and> process_sample env c k s w1 = (Inl e, w', l2) \<and> l = l1 @ l2"
proof (induction reg arbitrary: gm w l)
  case Nil
  then show ?case by (simp add: ret_def)
next
  case (Cons a reg)
  obtain k s where a: "a = (k, s)" by (cases a)
  from Cons.prems have "seq (process_sample env c k s)
      (\<lambda>g. sample_loop env c reg (AList.update k g gm)) w = (Inl e, w', l)"
    by (simp add: a)
  then show ?case
  proof (cases rule: seqE)
    case (raised e')
    then have "a # reg = [] @ (k, s) # reg"
      "sample_loop env c [] gm w = (Inr gm, w, [])"
      "process_sample env c k s w = (Inl e, w', l)" "l = [] @ l"
      by (simp_all add: a ret_def)
    then show ?thesis by blast
  next
    case (returned g w1 la lb)
    from Cons.IH [OF returned(2)] obtain pre k' s' post gm1 w1' l1 l2 where
      r: "reg = pre @ (k', s') # post"
      and p: "sample_loop env c pre (AList.update k g gm) w1 = (Inr gm1, w1', l1)"
      and q: "process_sample env c k' s' w1' = (Inl e, w', l2)" and lb: "lb = l1 @ l2"
      by blast
    from returned(1) p have "sample_loop env c ((k, s) # pre) gm w = (Inr gm1, w1', la @ l1)"
      by (simp add: seq_def)
    moreover from r have "a # reg = ((k, s) # pre) @ (k', s') # post" by (simp add: a)
    moreover from returned(3) lb have "l = (la @ l1) @ l2" by simp
    ultimately show ?thesis using q by blast
  qed
qed

lemma earlier_samples_clean:
  assumes ab: "is_abs (cwd w)"
    and la: "leaves_alone env (set (map (trimmed_at (cwd w)) reg))"
    and dist: "distinct (map (trimmed_at (cwd w)) reg)"
    and split: "reg = pre @ (k, s) # post"
    and pre: "sample_loop env c pre gm w = (Inr gm1, w1, l1)"
    and this_one: "process_sample env c k s w1 = (r2, w2, l2)"
  shows "\<forall>x \<in> set pre. trimmed_at (cwd w) x \<notin> files w2"
    and "\<forall>g. r2 = Inr g \<longrightarrow> trimmed_at (cwd w) (k, s) \<notin> files w2"
proof -
  let ?T = "set (map (trimmed_at (cwd w)) reg)"
  from dist split have dpre: "distinct (map (trimmed_at (cwd w)) pre)"
    and other: "trimmed_at (cwd w) (k, s) \<notin> set (map (trimmed_at (cwd w)) pre)"
    by auto
  from split have sub: "set (map (trimmed_at (cwd w)) pre) \<subseteq> ?T"
    and kin: "trimmed_at (cwd w) (k, s) \<in> ?T" by auto
  from sample_loop_frame [OF la ab refl dpre sub pre]
  have c1: "cwd w1 = cwd w"
    and f1: "files w1 \<inter> ?T \<subseteq> files w - set (map (trimmed_at (cwd w)) pre)" by simp_all
  from ab c1 have ab1: "is_abs (cwd w1)" by simp
  from process_sample_frame [OF la ab1 this_one]
  have f2: "files w2 \<inter> ?T \<subseteq> insert (trimmed_at (cwd w) (k, s)) (files w1)"
    and g2: "\<forall>g. r2 = Inr g \<longrightarrow> trimmed_at (cwd w) (k, s) \<notin> files w2"
    using kin by (auto simp: c1)
  show "\<forall>x \<in> set pre. trimmed_at (cwd w) x \<notin> files w2"
  proof
    fix x assume x: "x \<in> set pre"
    then have a: "trimmed_at (cwd w) x \<in> set (map (trimmed_at (cwd w)) pre)" by simp
    with other have "trimmed_at (cwd w) x \<noteq> trimmed_at (cwd w) (k, s)" by auto
    with a sub f1 f2 show "trimmed_at (cwd w) x \<notin> files w2" by blast
  qed
  from g2 show "\<forall>g. r2 = Inr g \<longrightarrow> trimmed_at (cwd w) (k, s) \<notin> files w2" .
qed

lemma all_samples_clean:
  assumes ab: "is_abs (cwd w)"
    and la: "leaves_alone env (set (map (trimmed_at (cwd w)) reg))"
    and dist: "distinct (map (trimmed_at (cwd w)) reg)"
    and run: "sample_loop env c reg gm w = (Inr gm', w', l)"
  shows "\<forall>x \<in> set reg. trimmed_at (cwd w) x \<notin> files w'"
proof
  fix x assume "x \<in> set reg"
  then have "trimmed_at (cwd w) x \<in> set (map (trimmed_at (cwd w)) reg)" by simp
  with sample_loop_frame [OF la ab refl dist subset_refl run]
  show "trimmed_at (cwd w) x \<notin> files w'" by blast
qed

lemma remove_follows_aligner:
  assumes "process_sample env c k s w = (r, w', l)"
    and "l = before @ (Os_remove tp, out) # after"
  shows "tp = field s ''trimmedPath''
       \<and> before =
           [(Trim_fastq (field s ''demultiplexedPath'') (field s ''trimmedPath'') k (barcode_length c),
             None),
            (BowtieMap (organism c) (''../'' @ k @ ''_trimmed.fastq'') (''../'' @ k @ ''_bowtie.txt''),
             None)]"
  using assms unfolding process_sample_def Let_def
  by (auto elim!: seqE callE with_cdE
      simp: lift_def dict_get_def field_def outcome_def Cons_eq_append_conv append_eq_Cons_conv
      split: option.splits)

lemma removed_when_processed:
  assumes "process_sample env c k s w = (Inr g, w', l)"
  shows "l = [(Trim_fastq (field s ''demultiplexedPath'') (field s ''trimmedPath'') k (barcode_length c),
             None),
            (BowtieMap (organism c) (''../'' @ k @ ''_trimmed.fastq'') (''../'' @ k @ ''_bowtie.txt''),
             None),
            (Os_remove (field s ''trimmedPath''), None),
            (MapSites (experiment' c @ ''/'' @ k @ ''_bowtie.txt''), None),
            (MapGenes (organism c) k (disruption c) (experiment' c), None)]"
  using assms unfolding process_sample_def Let_def
  by (auto elim!: seqE callE with_cdE
      simp: lift_def dict_get_def field_def outcome_def
      split: option.splits)

text \<open>
  Claim C3. In the processing of a sample, \<^verbatim>\<open>os.remove\<close> is called on the sample's
  trimmed path, and only there: when it is called, the calls made for the sample so
  far are \<^verbatim>\<open>trim_fastq\<close> and then the aligner, and both have returned; when the
  processing of the sample returns, the removal has been made, after the aligner and
  before the sites and genes are mapped.
  For the files: the loop starts in a directory given by an absolute path, the trimmed
  paths of the registry name different files, and the collaborators write none of these
  files except \<^verbatim>\<open>trim_fastq\<close> its own output. Then: when the loop returns, no
  sample's trimmed file is on disk; when it raises, it raises in the processing of one
  sample \<open>k\<close>, after the samples before it were processed; and whenever a sample \<open>k\<close>
  has been started after the samples before it were processed, then however its
  processing ends, no trimmed file of an earlier sample is on disk, and its own is not
  either when its processing returned.
\<close>

theorem trimmed_files_removed:
  assumes "is_abs (cwd w)"
    and "leaves_alone env (set (map (trimmed_at (cwd w)) reg))"
    and "distinct (map (trimmed_at (cwd w)) reg)"
    and "sample_loop env c reg gm w = (r, w', l)"
  shows "(\<forall>gm'. r = Inr gm' \<longrightarrow> (\<forall>x \<in> set reg. trimmed_at (cwd w) x \<notin> files w'))
       \<and> (\<forall>e. r = Inl e \<longrightarrow>
            (\<exists>pre k s post gm1 w1 l1 l2. reg = pre @ (k, s) # post
               \<and> sample_loop env c pre gm w = (Inr gm1, w1, l1)
               \<and> process_sample env c k s w1 = (Inl e, w', l2) \<and> l = l1 @ l2))
       \<and> (\<forall>pre k s post gm1 w1 l1 r2 w2 l2.
            reg = pre @ (k, s) # post
            \<and> sample_loop env c pre gm w = (Inr gm1, w1, l1)
            \<and> process_sample env c k s w1 = (r2, w2, l2) \<longrightarrow>
              (\<forall>x \<in> set pre. trimmed_at (cwd w) x \<notin> files w2)
              \<and> (\<forall>g. r2 = Inr g \<longrightarrow>
                    trimmed_at (cwd w) (k, s) \<notin> files w2
                    \<and> l2 = [(Trim_fastq (field s ''demultiplexedPath'') (field s ''trimmedPath'')
                                k (barcode_length c), None),
                             (BowtieMap (organism c) (''../'' @ k @ ''_trimmed.fastq'')
                                (''../'' @ k @ ''_bowtie.txt''), None),
                             (Os_remove (field s ''trimmedPath''), None),
                             (MapSites (experiment' c @ ''/'' @ k @ ''_bowtie.txt''), None),
                             (MapGenes (organism c) k (disruption c) (experiment' c), None)])
              \<and> (\<forall>before tp out after. l2 = before @ (Os_remove tp, out) # after \<longrightarrow>
                    tp = field s ''trimmedPath''
                    \<and> before =
                        [(Trim_fastq (field s ''demultiplexedPath'') (field s ''trimmedPath'')
                            k (barcode_length c), None),
                         (BowtieMap (organism c) (''../'' @ k @ ''_trimmed.fastq'')
                            (''../'' @ k @ ''_bowtie.txt''), None)])
              \<and> (\<forall>e. r2 = Inl e \<longrightarrow> r = Inl e \<and> w' = w2 \<and> l = l1 @ l2))"
proof -
  have 1: "\<forall>gm'. r = Inr gm' \<longrightarrow> (\<forall>x \<in> set reg. trimmed_at (cwd w) x \<notin> files w')"
  proof (intro allI impI)
    fix gm' assume "r = Inr gm'"
    with assms(4) have "sample_loop env c reg gm w = (Inr gm', w', l)" by simp
    from all_samples_clean [OF assms(1-3) this]
    show "\<forall>x \<in> set reg. trimmed_at (cwd w) x \<notin> files w'" .
  qed
  have 2: "\<forall>e. r = Inl e \<longrightarrow>
            (\<exists>pre k s post gm1 w1 l1 l2. reg = pre @ (k, s) # post
               \<and> sample_loop env c pre gm w = (Inr gm1, w1, l1)
               \<and> process_sample env c k s w1 = (Inl e, w', l2) \<and> l = l1 @ l2)"
  proof (intro allI impI)
    fix e assume "r = Inl e"
    with assms(4) have "sample_loop env c reg gm w = (Inl e, w', l)" by simp
    then show "\<exists>pre k s post gm1 w1 l1 l2. reg = pre @ (k, s) # post
               \<and> sample_loop env c pre gm w = (Inr gm1, w1, l1)
               \<and> process_sample env c k s w1 = (Inl e, w', l2) \<and> l = l1 @ l2"
      by (rule raise_has_sample)
  qed
  have 3: "\<forall>pre k s post gm1 w1 l1 r2 w2 l2.
            reg = pre @ (k, s) # post
            \<and> sample_loop env c pre gm w = (Inr gm1, w1, l1)
            \<and> process_sample env c k s w1 = (r2, w2, l2) \<longrightarrow>
              (\<forall>x \<in> set pre. trimmed_at (cwd w) x \<notin> files w2)
              \<and> (\<forall>g. r2 = Inr g \<longrightarrow>
                    trimmed_at (cwd w) (k, s) \<notin> files w2
                    \<and> l2 = [(Trim_fastq (field s ''demultiplexedPath'') (field s ''trimmedPath'')
                                k (barcode_length c), None),
                             (BowtieMap (organism c) (''../'' @ k @ ''_trimmed.fastq'')
                                (''../'' @ k @ ''_bowtie.txt''), None),
                             (Os_remove (field s ''trimmedPath''), None),
                             (MapSites (experiment' c @ ''/'' @ k @ ''_bowtie.txt''), None),
                             (MapGenes (organism c) k (disruption c) (experiment' c), None)])
              \<and> (\<forall>before tp out after. l2 = before @ (Os_remove tp, out) # after \<longrightarrow>
                    tp = field s ''trimmedPath''
                    \<and> before =
                        [(Trim_fastq (field s ''demultiplexedPath'') (field s ''trimmedPath'')
                            k (barcode_length c), None),
                         (BowtieMap (organism c) (''../'' @ k @ ''_trimmed.fastq'')
                            (''../'' @ k @ ''_bowtie.txt''), None)])
              \<and> (\<forall>e. r2 = Inl e \<longrightarrow> r = Inl e \<and> w' = w2 \<and> l = l1 @ l2)"
  proof (intro allI impI)
    fix pre k s post gm1 w1 l1 r2 w2 l2
    assume h: "reg = pre @ (k, s) # post
            \<and> sample_loop env c pre gm w = (Inr gm1, w1, l1)
            \<and> process_sample env c k s w1 = (r2, w2, l2)"
    then have a: "reg = pre @ (k, s) # post"
      and b: "sample_loop env c pre gm w = (Inr gm1, w1, l1)"
      and d: "process_sample env c k s w1 = (r2, w2, l2)" by simp_all
    have x: "\<forall>x \<in> set pre. trimmed_at (cwd w) x \<notin> files w2"
      by (rule earlier_samples_clean(1) [OF assms(1-3) a b d])
    have y0: "\<forall>g. r2 = Inr g \<longrightarrow> trimmed_at (cwd w) (k, s) \<notin> files w2"
      by (rule earlier_samples_clean(2) [OF assms(1-3) a b d])
    have y: "\<forall>g. r2 = Inr g \<longrightarrow>
                    trimmed_at (cwd w) (k, s) \<notin> files w2
                    \<and> l2 = [(Trim_fastq (field s ''demultiplexedPath'') (field s ''trimmedPath'')
                                k (barcode_length c), None),
                             (BowtieMap (organism c) (''../'' @ k @ ''_trimmed.fastq'')
                                (''../'' @ k @ ''_bowtie.txt''), None),
                             (Os_remove (field s ''trimmedPath''), None),
                             (MapSites (experiment' c @ ''/'' @ k @ ''_bowtie.txt''), None),
                             (MapGenes (organism c) k (disruption c) (experiment' c), None)]"
    proof (intro allI impI)
      fix g assume g: "r2 = Inr g"
      with d have "process_sample env c k s w1 = (Inr g, w2, l2)" by simp
      from removed_when_processed [OF this] y0 g
      show "trimmed_at (cwd w) (k, s) \<notin> files w2
                    \<and> l2 = [(Trim_fastq (field s ''demultiplexedPath'') (field s ''trimmedPath'')
                                k (barcode_length c), None),
                             (BowtieMap (organism c) (''../'' @ k @ ''_trimmed.fastq'')
                                (''../'' @ k @ ''_bowtie.txt''), None),
                             (Os_remove (field s ''trimmedPath''), None),
                             (MapSites (experiment' c @ ''/'' @ k @ ''_bowtie.txt''), None),
                             (MapGenes (organism c) k (disruption c) (experiment' c), None)]"
        by blast
    qed
    have o: "\<forall>before tp out after. l2 = before @ (Os_remove tp, out) # after \<longrightarrow>
                    tp = field s ''trimmedPath''
                    \<and> before =
                        [(Trim_fastq (field s ''demultiplexedPath'') (field s ''trimmedPath'')
                            k (barcode_length c), None),
                         (BowtieMap (organism c) (''../'' @ k @ ''_trimmed.fastq'')
                            (''../'' @ k @ ''_bowtie.txt''), None)]"
      using remove_follows_aligner [OF d] by blast
    have z: "\<forall>e. r2 = Inl e \<longrightarrow> r = Inl e \<and> w' = w2 \<and> l = l1 @ l2"
    proof (intro allI impI)
      fix e assume "r2 = Inl e"
      with d have "process_sample env c k s w1 = (Inl e, w2, l2)" by simp
      from raised_in_sample [OF b this, of post] a assms(4)
      show "r = Inl e \<and> w' = w2 \<and> l = l1 @ l2" by simp
    qed
    from x y o z show "(\<forall>x \<in> set pre. trimmed_at (cwd w) x \<notin> files w2)
              \<and> (\<forall>g. r2 = Inr g \<longrightarrow>
                    trimmed_at (cwd w) (k, s) \<notin> files w2
                    \<and> l2 = [(Trim_fastq (field s ''demultiplexedPath'') (field s ''trimmedPath'')
                                k (barcode_length c), None),
                             (BowtieMap (organism c) (''../'' @ k @ ''_trimmed.fastq'')
                                (''../'' @ k @ ''_bowtie.txt''), None),
                             (Os_remove (field s ''trimmedPath''), None),
                             (MapSites (experiment' c @ ''/'' @ k @ ''_bowtie.txt''), None),
                             (MapGenes (organism c) k (disruption c) (experiment' c), None)])
              \<and> (\<forall>before tp out after. l2 = before @ (Os_remove tp, out) # after \<longrightarrow>
                    tp = field s ''trimmedPath''
                    \<and> before =
                        [(Trim_fastq (field s ''demultiplexedPath'') (field s ''trimmedPath'')
                            k (barcode_length c), None),
                         (BowtieMap (organism c) (''../'' @ k @ ''_trimmed.fastq'')
                            (''../'' @ k @ ''_bowtie.txt''), None)])
              \<and> (\<forall>e. r2 = Inl e \<longrightarrow> r = Inl e \<and> w' = w2 \<and> l = l1 @ l2)"
      by (intro conjI)
  qed
  from 1 2 3 show ?thesis by (intro conjI)
qed


lemma lab_leaves_alone: "leaves_alone (lab_env reg bad) T"
  by (auto simp: leaves_alone_def lab_env_def split: if_splits)

lemma staged_first_sample:
  "sample_loop (lab_env two_samples ''B'') lab_config
      [(''A'', [(''name'', ''A''), (''barcode'', ''ACGT''),
                (''demultiplexedPath'', ''e/raw_data/A.fastq.gz''),
                (''trimmedPath'', ''e/A_trimmed.fastq'')])] [] staged_world
    = (Inr [(''A'', 1)], staged_world,
       [(Trim_fastq ''e/raw_data/A.fastq.gz'' ''e/A_trimmed.fastq'' ''A'' 4, None),
        (BowtieMap ''genome'' ''../A_trimmed.fastq'' ''../A_bowtie.txt'', None),
        (Os_remove ''e/A_trimmed.fastq'', None),
        (MapSites ''e/A_bowtie.txt'', None),
        (MapGenes ''genome'' ''A'' 1 ''e'', None)])"
  by (simp add: run_defs lab_config_def staged_world_def)

lemma staged_second_sample:
  "process_sample (lab_env two_samples ''B'') lab_config ''B''
      [(''name'', ''B''), (''barcode'', ''TTTT''),
       (''demultiplexedPath'', ''e/raw_data/B.fastq.gz''),
       (''trimmedPath'', ''e/B_trimmed.fastq'')] staged_world
    = (Inl (Failure ''bowtie''),
       staged_world\<lparr>files := insert ''/w/e/B_trimmed.fastq'' (files staged_world)\<rparr>,
       [(Trim_fastq ''e/raw_data/B.fastq.gz'' ''e/B_trimmed.fastq'' ''B'' 4, None),
        (BowtieMap ''genome'' ''../B_trimmed.fastq'' ''../B_bowtie.txt'', Some (Failure ''bowtie''))])"
  by (simp add: run_defs lab_config_def staged_world_def)

lemma staged_first_alone:
  "process_sample (lab_env two_samples ''B'') lab_config ''A''
      [(''name'', ''A''), (''barcode'', ''ACGT''),
       (''demultiplexedPath'', ''e/raw_data/A.fastq.gz''),
       (''trimmedPath'', ''e/A_trimmed.fastq'')] staged_world
    = (Inr 1, staged_world,
       [(Trim_fastq ''e/raw_data/A.fastq.gz'' ''e/A_trimmed.fastq'' ''A'' 4, None),
        (BowtieMap ''genome'' ''../A_trimmed.fastq'' ''../A_bowtie.txt'', None),
        (Os_remove ''e/A_trimmed.fastq'', None),
        (MapSites ''e/A_bowtie.txt'', None),
        (MapGenes ''genome'' ''A'' 1 ''e'', None)])"
  by (simp add: run_defs lab_config_def staged_world_def)

lemma staged_nothing_before:
  "sample_loop (lab_env two_samples ''B'') lab_config [] [] staged_world
     = (Inr [], staged_world, [])"
  by (simp add: ret_def)

theorem trimmed_files_removed_witness:
  "is_abs (cwd staged_world)
   \<and> distinct (map (trimmed_at (cwd staged_world)) lab_registry)
   \<and> fst (sample_loop (lab_env two_samples ''B'') lab_config lab_registry [] staged_world)
       = Inl (Failure ''bowtie'')
   \<and> ''/w/e/A_trimmed.fastq''
       \<notin> files (fst (snd (sample_loop (lab_env two_samples ''B'') lab_config lab_registry []
                              staged_world)))
   \<and> ''/w/e/B_trimmed.fastq''
       \<in> files (fst (snd (sample_loop (lab_env two_samples ''B'') lab_config lab_registry []
                              staged_world)))
   \<and> snd (snd (process_sample (lab_env two_samples ''B'') lab_config ''A''
         [(''name'', ''A''), (''barcode'', ''ACGT''),
          (''demultiplexedPath'', ''e/raw_data/A.fastq.gz''),
          (''trimmedPath'', ''e/A_trimmed.fastq'')] staged_world))
       = [(Trim_fastq ''e/raw_data/A.fastq.gz'' ''e/A_trimmed.fastq'' ''A'' 4, None),
          (BowtieMap ''genome'' ''../A_trimmed.fastq'' ''../A_bowtie.txt'', None),
          (Os_remove ''e/A_trimmed.fastq'', None),
          (MapSites ''e/A_bowtie.txt'', None),
          (MapGenes ''genome'' ''A'' 1 ''e'', None)]"
proof -
  let ?sA = "[(''name'', ''A''), (''barcode'', ''ACGT''),
                (''demultiplexedPath'', ''e/raw_data/A.fastq.gz''),
                (''trimmedPath'', ''e/A_trimmed.fastq'')]"
  let ?A = "(''A'', [(''name'', ''A''), (''barcode'', ''ACGT''),
                (''demultiplexedPath'', ''e/raw_data/A.fastq.gz''),
                (''trimmedPath'', ''e/A_trimmed.fastq'')])"
  let ?sB = "[(''name'', ''B''), (''barcode'', ''TTTT''),
       (''demultiplexedPath'', ''e/raw_data/B.fastq.gz''),
       (''trimmedPath'', ''e/B_trimmed.fastq'')]"
  let ?w2 = "staged_world\<lparr>files := insert ''/w/e/B_trimmed.fastq'' (files staged_world)\<rparr>"
  have ab: "is_abs (cwd staged_world)" by (simp add: staged_world_def is_abs_def)
  have dist: "distinct (map (trimmed_at (cwd staged_world)) lab_registry)"
    by (simp add: staged_world_def lab_registry_def trimmed_at_def field_def abspath_def is_abs_def)
  have split: "lab_registry = [?A] @ (''B'', ?sB) # []" by (simp add: lab_registry_def)
  have ta: "trimmed_at (cwd staged_world) ?A = ''/w/e/A_trimmed.fastq''"
    by (simp add: staged_world_def trimmed_at_def field_def abspath_def is_abs_def)
  have b: "''/w/e/B_trimmed.fastq'' \<in> files ?w2" by simp
  note t = trimmed_files_removed [OF ab lab_leaves_alone dist triple_eta,
      of two_samples "''B''" lab_config "[]"]
  note u = t [THEN conjunct2, THEN conjunct2, rule_format,
      OF conjI [OF split conjI [OF staged_first_sample staged_second_sample]]]
  from u have a: "trimmed_at (cwd staged_world) ?A \<notin> files ?w2" by simp
  from u have r: "fst (sample_loop (lab_env two_samples ''B'') lab_config lab_registry []
      staged_world) = Inl (Failure ''bowtie'')"
    and w: "fst (snd (sample_loop (lab_env two_samples ''B'') lab_config lab_registry []
      staged_world)) = ?w2"
    by blast+
  from a ta have nA: "''/w/e/A_trimmed.fastq'' \<notin> files ?w2" by simp
  have splitA: "lab_registry = [] @ (''A'', ?sA) # [(''B'', ?sB)]" by (simp add: lab_registry_def)
  note v = t [THEN conjunct2, THEN conjunct2, rule_format,
      OF conjI [OF splitA conjI [OF staged_nothing_before staged_first_alone]]]
  note v2 = v [THEN conjunct2, THEN conjunct1, rule_format, OF refl, THEN conjunct2]
  have L: "snd (snd (process_sample (lab_env two_samples ''B'') lab_config ''A'' ?sA
         staged_world))
       = [(Trim_fastq ''e/raw_data/A.fastq.gz'' ''e/A_trimmed.fastq'' ''A'' 4, None),
          (BowtieMap ''genome'' ''../A_trimmed.fastq'' ''../A_bowtie.txt'', None),
          (Os_remove ''e/A_trimmed.fastq'', None),
          (MapSites ''e/A_bowtie.txt'', None),
          (MapGenes ''genome'' ''A'' 1 ''e'', None)]"
    by (simp add: staged_first_alone)
  have rhs: "[(Trim_fastq (field ?sA ''demultiplexedPath'') (field ?sA ''trimmedPath'')
                ''A'' (barcode_length lab_config), None),
              (BowtieMap (organism lab_config) (''../'' @ ''A'' @ ''_trimmed.fastq'')
                (''../'' @ ''A'' @ ''_bowtie.txt''), None),
              (Os_remove (field ?sA ''trimmedPath''), None),
              (MapSites (experiment' lab_config @ ''/'' @ ''A'' @ ''_bowtie.txt''), None),
              (MapGenes (organism lab_config) ''A'' (disruption lab_config)
                (experiment' lab_config), None)]
       = [(Trim_fastq ''e/raw_data/A.fastq.gz'' ''e/A_trimmed.fastq'' ''A'' 4, None),
          (BowtieMap ''genome'' ''../A_trimmed.fastq'' ''../A_bowtie.txt'', None),
          (Os_remove ''e/A_trimmed.fastq'', None),
          (MapSites ''e/A_bowtie.txt'', None),
          (MapGenes ''genome'' ''A'' 1 ''e'', None)]"
    by (simp add: field_def lab_config_def)
  note lA = trans [OF trans [OF L v2] rhs]
  from nA ab dist r b lA show ?thesis unfolding w by blast
qed

end
